theory Spec2Isabelle
  imports Complex_Main "HOL-Library.Sublist" "HOL-Library.Multiset"
    "HOL-Library.List_Lexorder" "HOL-Library.Char_ord"
begin

section \<open>Python values\<close>

text \<open>
  Exceptions are values: a function of the source that can raise returns a sum, with the
  exception on the left.
\<close>

datatype py_exception =
    AssertionError string
  | FailedExtractingCode nat
  | FileNotFoundError string
  | AttributeError
  | TypeError
  | UnpicklingError
  | IndexError

text \<open>
  A Python \<open>str\<close> is modelled as a \<open>string\<close> whose characters are the code points
  below 256. \<open>str.strip()\<close> removes the characters for which \<open>str.isspace\<close> holds:
  in this range the code points 9 to 13, 28 to 32, 133 and 160.
\<close>

definition isspace :: "char \<Rightarrow> bool" where
  "isspace c \<longleftrightarrow> of_char c \<in> {9, 10, 11, 12, 13, 28, 29, 30, 31, 32, 133, 160 :: nat}"

definition lstrip :: "string \<Rightarrow> string" where
  "lstrip s = dropWhile isspace s"

definition rstrip :: "string \<Rightarrow> string" where
  "rstrip s = rev (dropWhile isspace (rev s))"

definition strip :: "string \<Rightarrow> string" where
  "strip s = rstrip (lstrip s)"

text \<open>
  The text of an issue is written by the source as an f-string or a \<open>format\<close> call. It
  is kept as the list of its pieces: literal text and interpolated strings are
  \<open>Txt\<close>; an interpolated Python object whose rendering is the work of Python or
  pandas (the \<open>repr\<close> of a list, of an index, of a number) is kept as the object.
  Templates passed through \<open>dedent_triple_quote_str\<close> are given with the common
  indentation of the source literal removed.

  A pandas index is a list of labels with a dtype, or a multi-index, a list of tuples of
  labels. A label or a cell carries its Python type: a float is a real number or
  \<open>NaN\<close>; \<open>LObj\<close> and \<open>ObjV\<close> stand for a value of any other type and carry
  the name of that type. A data frame has its index, its columns and its cells, row by
  row. Provenance-tagged cells (the class \<open>PValue\<close>, not among the sources) are not
  modelled.
\<close>

datatype label = LInt int | LStr string | LBool bool | LFloat real | LObj string

datatype dtype =
    Int8 | Int16 | Int32 | Int64
  | UInt8 | UInt16 | UInt32 | UInt64
  | NullableInt64
  | Float32 | Float64
  | BoolDtype
  | ObjectDtype

text \<open>
  The integer dtypes, and the comparison \<open>dtype == int\<close>: numpy reads the Python type
  \<open>int\<close> as its default integer dtype, \<open>int64\<close>, so the comparison holds for that
  dtype only; it fails for the other integer dtypes, the nullable extension dtype
  included.
\<close>

fun is_integer_dtype :: "dtype \<Rightarrow> bool" where
  "is_integer_dtype Int8 = True"
| "is_integer_dtype Int16 = True"
| "is_integer_dtype Int32 = True"
| "is_integer_dtype Int64 = True"
| "is_integer_dtype UInt8 = True"
| "is_integer_dtype UInt16 = True"
| "is_integer_dtype UInt32 = True"
| "is_integer_dtype UInt64 = True"
| "is_integer_dtype NullableInt64 = True"
| "is_integer_dtype dt = False"

definition dtype_eq_int :: "dtype \<Rightarrow> bool" where
  "dtype_eq_int dt \<longleftrightarrow> dt = Int64"


datatype Index = Index dtype "label list" | MultiIndex "label list list"

datatype cell =
    IntV int
  | FloatV real
  | NaN
  | StrV string
  | BoolV bool
  | TupleV "string list"
  | SeriesV
  | DataFrameV
  | ObjV string

record DataFrame =
  df_index :: Index
  df_columns :: Index
  df_values :: "cell list list"

text \<open>
  The value of a keyword argument of a checked call.
\<close>

datatype kwarg =
    KNone
  | KBool bool
  | KInt int
  | KStr string
  | KStrList "string list"
  | KDict "(string \<times> string) list"

datatype frag =
    Txt string
  | IntRepr int
  | OptIntRepr "int option"
  | StrListRepr "string list"
  | IndexRepr Index
  | CellRepr cell
  | KwargRepr kwarg
  | TypeNamesRepr "string list"
  | DfCsvRepr DataFrame

type_synonym msg = "frag list"

section \<open>Run issues\<close>

text \<open>
  The members of the enumeration \<open>CodeProblem\<close> that the modelled code names.
\<close>

datatype CodeProblem =
    OutputFileCallingSyntax
  | OutputFileContentA
  | OutputFileContentLevelA
  | OutputFileContentLevelC

record RunIssue =
  category :: "string option"
  item :: "string option"
  issue :: msg
  instructions :: msg
  code_problem :: "CodeProblem option"
  forgive_after :: "int option"

section \<open>Output file requirements\<close>

text \<open>
  The dataclass field \<open>should_keep_file\<close> is declared \<open>bool\<close>, but the base class and
  the content classes default it to Python's \<open>NotImplemented\<close>, which is truthy where
  \<open>delete_if_needed\<close> tests it.
\<close>

datatype keep_flag = Flag bool | NotImplemented

fun truthy :: "keep_flag \<Rightarrow> bool" where
  "truthy (Flag b) = b"
| "truthy NotImplemented = True"

text \<open>
  One constructor per dataclass of \<open>output_file_requirements.py\<close>; the arguments are the
  fields in declaration order: filename, minimal count, should-keep-file, then (content
  classes) the hypertarget prefixes, then the fields of the subclass (\<open>max_tokens\<close>, or
  \<open>target_precision\<close> and \<open>source_precision\<close>). Equality of two values is the
  dataclass equality: same class and same fields.
\<close>

datatype requirement =
    OutputFileRequirement string int keep_flag
  | DataOutputFileRequirement string int keep_flag
  | BaseContentOutputFileRequirement string int keep_flag "string list option"
  | PickleContentOutputFileRequirement string int keep_flag "string list option"
  | TextContentOutputFileRequirement string int keep_flag "string list option" "int option"
  | NumericTextContentOutputFileRequirement string int keep_flag "string list option" int int

fun filename :: "requirement \<Rightarrow> string" where
  "filename (OutputFileRequirement f m k) = f"
| "filename (DataOutputFileRequirement f m k) = f"
| "filename (BaseContentOutputFileRequirement f m k h) = f"
| "filename (PickleContentOutputFileRequirement f m k h) = f"
| "filename (TextContentOutputFileRequirement f m k h t) = f"
| "filename (NumericTextContentOutputFileRequirement f m k h tp sp) = f"

fun minimal_count :: "requirement \<Rightarrow> int" where
  "minimal_count (OutputFileRequirement f m k) = m"
| "minimal_count (DataOutputFileRequirement f m k) = m"
| "minimal_count (BaseContentOutputFileRequirement f m k h) = m"
| "minimal_count (PickleContentOutputFileRequirement f m k h) = m"
| "minimal_count (TextContentOutputFileRequirement f m k h t) = m"
| "minimal_count (NumericTextContentOutputFileRequirement f m k h tp sp) = m"

fun should_keep_file :: "requirement \<Rightarrow> keep_flag" where
  "should_keep_file (OutputFileRequirement f m k) = k"
| "should_keep_file (DataOutputFileRequirement f m k) = k"
| "should_keep_file (BaseContentOutputFileRequirement f m k h) = k"
| "should_keep_file (PickleContentOutputFileRequirement f m k h) = k"
| "should_keep_file (TextContentOutputFileRequirement f m k h t) = k"
| "should_keep_file (NumericTextContentOutputFileRequirement f m k h tp sp) = k"

text \<open>\<open>isinstance(req, BaseContentOutputFileRequirement)\<close>: the class and its subclasses.\<close>

fun is_content_requirement :: "requirement \<Rightarrow> bool" where
  "is_content_requirement (OutputFileRequirement f m k) = False"
| "is_content_requirement (DataOutputFileRequirement f m k) = False"
| "is_content_requirement (BaseContentOutputFileRequirement f m k h) = True"
| "is_content_requirement (PickleContentOutputFileRequirement f m k h) = True"
| "is_content_requirement (TextContentOutputFileRequirement f m k h t) = True"
| "is_content_requirement (NumericTextContentOutputFileRequirement f m k h tp sp) = True"

definition is_wildcard :: "requirement \<Rightarrow> bool" where
  "is_wildcard req \<longleftrightarrow> CHR ''*'' \<in> set (filename req) \<or> CHR ''?'' \<in> set (filename req)"

text \<open>\<open>OutputFileRequirements\<close> is a tuple of requirements: a list, in declaration order.\<close>

definition is_single_content_candidate :: "requirement \<Rightarrow> bool" where
  "is_single_content_candidate req \<longleftrightarrow>
     is_content_requirement req \<and> \<not> is_wildcard req \<and> minimal_count req = 1"

definition get_single_content_file :: "requirement list \<Rightarrow> string option" where
  "get_single_content_file self =
     (let content_file_requirements = filter is_single_content_candidate self
      in if length content_file_requirements \<noteq> 1 then None
         else Some (filename (content_file_requirements ! 0)))"

subsection \<open>Content of an output file\<close>

text \<open>
  A decoded content: \<open>None\<close> for a data file, the text of a text file, the object of a
  pickle file.
\<close>

datatype 'o content = NoContent | TextContent string | ObjectContent 'o

text \<open>
  The run folder's files: a map from path to the file's bytes. \<open>run_folder / output_file\<close>
  is modelled for file names relative to the run folder.
\<close>

type_synonym filesystem = "string \<rightharpoonup> string"

definition file_path :: "string option \<Rightarrow> string \<Rightarrow> string" where
  "file_path run_folder output_file =
     (case run_folder of None \<Rightarrow> output_file | Some d \<Rightarrow> d @ ''/'' @ output_file)"

text \<open>\<open>pickle.load\<close> is a parameter: it decodes the bytes of a file or raises.\<close>

fun get_content :: "(string \<Rightarrow> py_exception + 'o) \<Rightarrow> requirement \<Rightarrow> filesystem \<Rightarrow> string
    \<Rightarrow> py_exception + 'o content" where
  "get_content pickle_load (OutputFileRequirement f m k) fs path = Inr NoContent"
| "get_content pickle_load (DataOutputFileRequirement f m k) fs path = Inr NoContent"
| "get_content pickle_load (PickleContentOutputFileRequirement f m k h) fs path =
     (case fs path of None \<Rightarrow> Inl (FileNotFoundError path)
      | Some bytes \<Rightarrow> (case pickle_load bytes of Inl e \<Rightarrow> Inl e
                      | Inr obj \<Rightarrow> Inr (ObjectContent obj)))"
| "get_content pickle_load req fs path =
     (case fs path of None \<Rightarrow> Inl (FileNotFoundError path)
      | Some text \<Rightarrow> Inr (TextContent text))"

definition delete_if_needed :: "requirement \<Rightarrow> filesystem \<Rightarrow> string \<Rightarrow> py_exception + filesystem" where
  "delete_if_needed self fs path =
     (if \<not> truthy (should_keep_file self)
      then (case fs path of None \<Rightarrow> Inl (FileNotFoundError path)
            | Some bytes \<Rightarrow> Inr (fs(path := None)))
      else Inr fs)"

definition get_content_and_delete_if_needed ::
    "(string \<Rightarrow> py_exception + 'o) \<Rightarrow> requirement \<Rightarrow> filesystem \<Rightarrow> string
     \<Rightarrow> py_exception + ('o content \<times> filesystem)" where
  "get_content_and_delete_if_needed pickle_load self fs path =
     (case get_content pickle_load self fs path of
        Inl e \<Rightarrow> Inl e
      | Inr content \<Rightarrow>
          (case delete_if_needed self fs path of
             Inl e \<Rightarrow> Inl e
           | Inr fs' \<Rightarrow> Inr (content, fs')))"

text \<open>
  \<open>get_issues_for_output_file_content\<close>. The method is defined by
  \<open>BaseContentOutputFileRequirement\<close> (no issue) and overridden by
  \<open>TextContentOutputFileRequirement\<close> only; the two classes that are not content
  requirements have no such attribute. \<open>count_number_of_tokens_in_message\<close> (at the
  largest model engine) and \<open>extract_to_nearest_newline\<close> are not among the sources and
  are parameters.
\<close>

definition empty_file_issue :: "string \<Rightarrow> RunIssue" where
  \<open>empty_file_issue file = \<lparr>
     category = Some ''Output file content'',
     item = Some file,
     issue = [Txt ''The code created the output file "'', Txt file,
              Txt ''", but the file is just empty!''],
     instructions =
       [Txt ''Please revise the code to make sure it correctly writes to the output file.''],
     code_problem = Some OutputFileContentLevelA,
     forgive_after = None \<rparr>\<close>

definition too_long_file_issue :: "string \<Rightarrow> string \<Rightarrow> RunIssue" where
  \<open>too_long_file_issue file preview = \<lparr>
     category = Some ''Output file content'',
     item = Some file,
     issue = [Txt ''The code created the output file "'', Txt file,
              Txt ''", but the file is too long!\<newline>\<newline>Here, for context, is the beginning of the output:\<newline>```output\<newline>'',
              Txt preview, Txt ''\<newline>```\<newline>''],
     instructions = [Txt ''Only sensible-length output should be written to the file.''],
     code_problem = Some OutputFileContentLevelC,
     forgive_after = None \<rparr>\<close>

fun get_issues_for_output_file_content ::
    "(string \<Rightarrow> int) \<Rightarrow> (string \<Rightarrow> int \<Rightarrow> string) \<Rightarrow> requirement \<Rightarrow> string \<Rightarrow> string
     \<Rightarrow> py_exception + RunIssue list" where
  "get_issues_for_output_file_content count_tokens extract (OutputFileRequirement f m k)
     file content = Inl AttributeError"
| "get_issues_for_output_file_content count_tokens extract (DataOutputFileRequirement f m k)
     file content = Inl AttributeError"
| "get_issues_for_output_file_content count_tokens extract
     (TextContentOutputFileRequirement f m k h max_tokens) file content =
     Inr ((if length (strip content) = 0 then [empty_file_issue file] else []) @
          (case max_tokens of
             None \<Rightarrow> []
           | Some mt \<Rightarrow>
               if count_tokens content > mt
               then [too_long_file_issue file (extract content mt)] else []))"
| "get_issues_for_output_file_content count_tokens extract req file content = Inr []"

text \<open>
  \<open>get_pretty_content\<close>, given \<open>str(content)\<close> (for a text content, the content) and
  the optional file name. \<open>Path(filename).suffix\<close> is what follows the last dot of the
  last path component, the dot included, unless that dot is the first or the last
  character of the component. \<open>round_floats\<close> is not among the sources and is a
  parameter.
\<close>

definition path_name :: "string \<Rightarrow> string" where
  "path_name p = rev (takeWhile (\<lambda>c. c \<noteq> CHR ''/'') (rev p))"

definition path_suffix :: "string \<Rightarrow> string" where
  "path_suffix p =
     (let name = path_name p;
          ext = rev (takeWhile (\<lambda>c. c \<noteq> CHR ''.'') (rev name))
      in if CHR ''.'' \<in> set name \<and> ext \<noteq> [] \<and> length ext + 1 < length name
         then CHR ''.'' # ext else [])"

definition EXTS_TO_LABELS :: "(string \<times> string) list" where
  "EXTS_TO_LABELS = [(''.tex'', ''latex''), (''.txt'', ''output''), (''.csv'', ''csv'')]"

definition base_get_pretty_content :: "string \<Rightarrow> string option \<Rightarrow> string" where
  \<open>base_get_pretty_content content file =
     (case file of
        Some fn \<Rightarrow>
          (let label = (case map_of EXTS_TO_LABELS (path_suffix fn) of
                          Some l \<Rightarrow> l | None \<Rightarrow> ''output'')
           in ''"'' @ fn @ ''":\<newline>```'' @ label @ ''\<newline>'' @ content @ ''\<newline>```\<newline>'')
      | None \<Rightarrow> content)\<close>

fun get_pretty_content :: "(string \<Rightarrow> int \<Rightarrow> int \<Rightarrow> string) \<Rightarrow> requirement \<Rightarrow> string
    \<Rightarrow> string option \<Rightarrow> py_exception + string" where
  "get_pretty_content round_floats (OutputFileRequirement f m k) content file =
     Inl AttributeError"
| "get_pretty_content round_floats (DataOutputFileRequirement f m k) content file =
     Inl AttributeError"
| "get_pretty_content round_floats
     (NumericTextContentOutputFileRequirement f m k h target_precision source_precision)
     content file =
     Inr (round_floats (base_get_pretty_content content file) target_precision source_precision)"
| "get_pretty_content round_floats req content file =
     Inr (base_get_pretty_content content file)"

text \<open>
  Stand-ins for the parameters, used to evaluate the model at concrete inputs: a tokenizer
  that counts characters, a preview that keeps the first characters, a rounding that
  leaves the text as it is, and an unpickling that returns the bytes.
\<close>

definition count_chars :: "string \<Rightarrow> int" where
  "count_chars s = int (length s)"

definition take_chars :: "string \<Rightarrow> int \<Rightarrow> string" where
  "take_chars s n = take (nat n) s"

definition keep_floats :: "string \<Rightarrow> int \<Rightarrow> int \<Rightarrow> string" where
  "keep_floats s target source = s"

definition load_bytes :: "string \<Rightarrow> py_exception + string" where
  "load_bytes bytes = Inr bytes"

subsection \<open>Reconciling created files with the requirements\<close>

text \<open>
  \<open>matches\<close> calls \<open>fnmatch\<close> of the Python standard library, which is not code of this
  repository: it is a parameter \<open>fm\<close> of the model, applied as the source applies it
  (\<open>fnmatch(filename, self.filename)\<close>).
\<close>

definition matches :: "(string \<Rightarrow> string \<Rightarrow> bool) \<Rightarrow> requirement \<Rightarrow> string \<Rightarrow> bool" where
  "matches fm self file \<longleftrightarrow> fm file (filename self)"

text \<open>
  A Python dict keeps its keys in insertion order and stores a key once: an association
  list with distinct keys. \<open>dict_set\<close> is \<open>d[k] = v\<close>, \<open>dict_append\<close> is
  \<open>d[k].append(x)\<close> for a key that is present.
\<close>

fun dict_set :: "'k \<Rightarrow> 'v \<Rightarrow> ('k \<times> 'v) list \<Rightarrow> ('k \<times> 'v) list" where
  "dict_set k v [] = [(k, v)]"
| "dict_set k v (p # ps) = (if fst p = k then (k, v) # ps else p # dict_set k v ps)"

fun dict_append :: "'k \<Rightarrow> 'a \<Rightarrow> ('k \<times> 'a list) list \<Rightarrow> ('k \<times> 'a list) list" where
  "dict_append k x [] = []"
| "dict_append k x (p # ps) =
     (if fst p = k then (fst p, snd p @ [x]) # ps else p # dict_append k x ps)"

text \<open>\<open>{requirement: [] for requirement in self}\<close>\<close>

fun empty_lists_dict :: "requirement list \<Rightarrow> (requirement \<times> string list) list
    \<Rightarrow> (requirement \<times> string list) list" where
  "empty_lists_dict [] d = d"
| "empty_lists_dict (r # rs) d = empty_lists_dict rs (dict_set r [] d)"

text \<open>
  The inner \<open>for requirement in self: if requirement.matches(created_file): ... break\<close>:
  the requirement the file is appended to, or \<open>None\<close> when the \<open>else\<close> branch of the
  loop runs.
\<close>

fun first_matching_requirement ::
    "(string \<Rightarrow> string \<Rightarrow> bool) \<Rightarrow> requirement list \<Rightarrow> string \<Rightarrow> requirement option" where
  "first_matching_requirement fm [] file = None"
| "first_matching_requirement fm (r # rs) file =
     (if matches fm r file then Some r else first_matching_requirement fm rs file)"

fun reconcile_loop :: "(string \<Rightarrow> string \<Rightarrow> bool) \<Rightarrow> requirement list \<Rightarrow> string list
    \<Rightarrow> (requirement \<times> string list) list \<times> string list
    \<Rightarrow> (requirement \<times> string list) list \<times> string list" where
  "reconcile_loop fm self [] (d, unmatched_files) = (d, unmatched_files)"
| "reconcile_loop fm self (created_file # rest) (d, unmatched_files) =
     (case first_matching_requirement fm self created_file of
        Some requirement \<Rightarrow>
          reconcile_loop fm self rest (dict_append requirement created_file d, unmatched_files)
      | None \<Rightarrow> reconcile_loop fm self rest (d, unmatched_files @ [created_file]))"

definition get_requirements_to_output_files_and_unmatched_files ::
    "(string \<Rightarrow> string \<Rightarrow> bool) \<Rightarrow> requirement list \<Rightarrow> string list
     \<Rightarrow> (requirement \<times> string list) list \<times> string list" where
  "get_requirements_to_output_files_and_unmatched_files fm self created_files =
     reconcile_loop fm self created_files (empty_lists_dict self [], [])"

definition get_requirements_to_output_files ::
    "(string \<Rightarrow> string \<Rightarrow> bool) \<Rightarrow> requirement list \<Rightarrow> string list
     \<Rightarrow> (requirement \<times> string list) list" where
  "get_requirements_to_output_files fm self created_files =
     fst (get_requirements_to_output_files_and_unmatched_files fm self created_files)"

definition get_unmatched_files ::
    "(string \<Rightarrow> string \<Rightarrow> bool) \<Rightarrow> requirement list \<Rightarrow> string list \<Rightarrow> string list" where
  "get_unmatched_files fm self created_files =
     snd (get_requirements_to_output_files_and_unmatched_files fm self created_files)"

subsection \<open>Collecting the contents of the created files\<close>

text \<open>
  The inner comprehension of \<open>convert_to_output_file_requirements_with_content\<close>: the
  files of one requirement, in order, each decoded and then deleted if needed.
\<close>

fun files_to_contents :: "(string \<Rightarrow> py_exception + 'o) \<Rightarrow> requirement \<Rightarrow> string option
    \<Rightarrow> string list \<Rightarrow> (string \<times> 'o content) list \<times> filesystem
    \<Rightarrow> py_exception + (string \<times> 'o content) list \<times> filesystem" where
  "files_to_contents pickle_load requirement run_folder [] (d, fs) = Inr (d, fs)"
| "files_to_contents pickle_load requirement run_folder (output_file # rest) (d, fs) =
     (case get_content_and_delete_if_needed pickle_load requirement fs
             (file_path run_folder output_file) of
        Inl e \<Rightarrow> Inl e
      | Inr (content, fs') \<Rightarrow>
          files_to_contents pickle_load requirement run_folder rest
            (dict_set output_file content d, fs'))"

text \<open>The outer comprehension, over the items of \<open>requirements_to_files\<close>.\<close>

fun requirements_to_contents :: "(string \<Rightarrow> py_exception + 'o) \<Rightarrow> string option
    \<Rightarrow> (requirement \<times> string list) list
    \<Rightarrow> (requirement \<times> (string \<times> 'o content) list) list \<times> filesystem
    \<Rightarrow> py_exception + (requirement \<times> (string \<times> 'o content) list) list \<times> filesystem" where
  "requirements_to_contents pickle_load run_folder [] (d, fs) = Inr (d, fs)"
| "requirements_to_contents pickle_load run_folder ((requirement, files) # rest) (d, fs) =
     (case files_to_contents pickle_load requirement run_folder files ([], fs) of
        Inl e \<Rightarrow> Inl e
      | Inr (files_to_content, fs') \<Rightarrow>
          requirements_to_contents pickle_load run_folder rest
            (dict_set requirement files_to_content d, fs'))"

definition convert_to_output_file_requirements_with_content ::
    "(string \<Rightarrow> string \<Rightarrow> bool) \<Rightarrow> (string \<Rightarrow> py_exception + 'o) \<Rightarrow> requirement list
     \<Rightarrow> string list \<Rightarrow> string option \<Rightarrow> filesystem
     \<Rightarrow> py_exception + (requirement \<times> (string \<times> 'o content) list) list \<times> filesystem" where
  "convert_to_output_file_requirements_with_content fm pickle_load self created_files
     run_folder fs =
     (let requirements_to_files = get_requirements_to_output_files fm self (sort created_files)
      in requirements_to_contents pickle_load run_folder requirements_to_files ([], fs))"

text \<open>
  Whether the bytes of a file can be decoded by a requirement: only unpickling can fail on
  a file that is present.
\<close>

fun decodable :: "(string \<Rightarrow> py_exception + 'o) \<Rightarrow> requirement \<Rightarrow> string \<Rightarrow> bool" where
  "decodable pickle_load (PickleContentOutputFileRequirement f m k h) bytes =
     (case pickle_load bytes of Inl e \<Rightarrow> False | Inr obj \<Rightarrow> True)"
| "decodable pickle_load req bytes = True"

text \<open>
  A small glob matcher (\<open>*\<close> any run of characters, \<open>?\<close> any one character), used to
  evaluate the model at concrete inputs.
\<close>

fun glob :: "string \<Rightarrow> string \<Rightarrow> bool" where
  "glob [] [] = True"
| "glob [] (p # ps) = (p = CHR ''*'' \<and> glob [] ps)"
| "glob (c # cs) [] = False"
| "glob (c # cs) (p # ps) =
     (if p = CHR ''*'' then glob (c # cs) ps \<or> glob cs (p # ps)
      else (p = CHR ''?'' \<or> p = c) \<and> glob cs ps)"


section \<open>Code runner\<close>

text \<open>
  \<open>CodeRunner.extract_code\<close>. Each entry of \<open>CODE_REGEXPS\<close> is an opening fence with
  a language tag, a lazy group \<open>(.*?)\<close> that may span lines (\<open>re.DOTALL\<close>), and the
  closing fence on a line of its own; the list is kept as the list of the openers, the
  close being the same for all.
\<close>

definition fence :: string where
  "fence = ''```''"

definition CODE_OPENERS :: "string list" where
  \<open>CODE_OPENERS = [''```python\<newline>'', ''``` python\<newline>'', ''```\<newline>'']\<close>

definition CODE_CLOSE :: string where
  \<open>CODE_CLOSE = ''\<newline>```''\<close>

text \<open>
  \<open>str.count(sub)\<close>: the number of non-overlapping occurrences, scanning from the left.
\<close>

function str_count :: "string \<Rightarrow> string \<Rightarrow> nat" where
  "str_count sub [] = (if sub = [] then 1 else 0)"
| "str_count sub (c # cs) =
     (if sub = [] then length (c # cs) + 1
      else if prefix sub (c # cs) then 1 + str_count sub (drop (length sub) (c # cs))
      else str_count sub cs)"
  by pat_completeness auto
termination
  by (relation "measure (\<lambda>(sub, s). length s)") (auto simp: Suc_le_eq)

text \<open>
  The first occurrence of \<open>sub\<close> in a string: what precedes it and what follows it.
\<close>

fun find_first :: "string \<Rightarrow> string \<Rightarrow> (string \<times> string) option" where
  "find_first sub [] = (if sub = [] then Some ([], []) else None)"
| "find_first sub (c # cs) =
     (if prefix sub (c # cs) then Some ([], drop (length sub) (c # cs))
      else map_option (\<lambda>(before, after). (c # before, after)) (find_first sub cs))"

text \<open>
  \<open>re.findall\<close> for an opener, the lazy group and the close: at each start position
  from the left, a match needs the opener there and a close somewhere after it; the group
  is the text up to the first such close, and the scan resumes after the match. The
  result is the list of the groups.
\<close>

function findall :: "string \<Rightarrow> string \<Rightarrow> string list" where
  "findall opener [] = []"
| "findall opener (c # cs) =
     (if prefix opener (c # cs) then
        (case find_first CODE_CLOSE (drop (length opener) (c # cs)) of
           Some (code, rest) \<Rightarrow> code # findall opener rest
         | None \<Rightarrow> findall opener cs)
      else findall opener cs)"
  by pat_completeness auto
termination
proof -
  have shorter: "find_first sub s = Some (a, b) \<Longrightarrow> length b + length sub \<le> length s"
    for sub s a b
  proof (induction s arbitrary: a)
    case Nil
    then show ?case by (auto split: if_splits)
  next
    case (Cons c cs)
    show ?case
    proof (cases "prefix sub (c # cs)")
      case True
      then have "length sub \<le> length (c # cs)" by (rule prefix_length_le)
      moreover have "b = drop (length sub) (c # cs)" using Cons.prems True by simp
      ultimately show ?thesis by simp
    next
      case False
      then obtain a' where "find_first sub cs = Some (a', b)" using Cons.prems by auto
      then have "length b + length sub \<le> length cs" by (rule Cons.IH)
      then show ?thesis by simp
    qed
  qed
  have close: "find_first CODE_CLOSE s = Some (a, b) \<Longrightarrow> length b < length s" for s a b
    using shorter [of CODE_CLOSE s a b] by (simp add: CODE_CLOSE_def)
  show ?thesis
    by (relation "measure (\<lambda>(opener, s). length s)") (auto dest: close)
qed

fun first_single_match :: "string list \<Rightarrow> string \<Rightarrow> string option" where
  "first_single_match [] response = None"
| "first_single_match (regexp # rest) response =
     (let matches = findall regexp response
      in if length matches = 1 then Some (strip (matches ! 0))
         else first_single_match rest response)"

definition extract_code :: "string \<Rightarrow> py_exception + string" where
  "extract_code response =
     (let num_block_edges = str_count fence response
      in if num_block_edges = 2
         then (case first_single_match CODE_OPENERS response of
                 Some code \<Rightarrow> Inr code
               | None \<Rightarrow> Inl (FailedExtractingCode num_block_edges))
         else Inl (FailedExtractingCode num_block_edges))"

section \<open>Checker framework\<close>

text \<open>
  The values stored under \<open>intermediate_results\<close>: the width ratio returned by the
  compilation, its error text, or \<open>None\<close>.
\<close>

datatype ir_value = IRNone | Width real | CompileError string

record BaseChecker =
  issues :: "RunIssue list"
  intermediate_results :: "(string \<times> ir_value) list"
  stop_after_first_issue :: bool

text \<open>
  A check method takes the checker, may change it (appending issues), and returns its
  stop signal, which the loop reads for its truth value; or it raises. A method is
  identified by its name, as the membership test on \<open>CHOICE_OF_CHECKS\<close> identifies the
  function object.
\<close>

record 'c check_method =
  method_name :: string
  call :: "'c \<Rightarrow> py_exception + bool \<times> 'c"

text \<open>
  What a checker class fixes: the attributes whose name starts with \<open>check\<close>, in the
  order of \<open>dir\<close>, and the class variable \<open>CHOICE_OF_CHECKS\<close>.
\<close>

record 'c checker_class =
  check_methods :: "'c check_method list"
  CHOICE_OF_CHECKS :: "('c check_method \<times> bool) list option"

definition automatically_get_all_check_methods :: "'c checker_class \<Rightarrow> 'c check_method list" where
  "automatically_get_all_check_methods cls = check_methods cls"

fun missing_check_method :: "'c check_method list \<Rightarrow> ('c check_method \<times> bool) list
    \<Rightarrow> string option" where
  "missing_check_method [] choice = None"
| "missing_check_method (m # ms) choice =
     (if method_name m \<in> set (map (method_name \<circ> fst) choice)
      then missing_check_method ms choice else Some (method_name m))"

definition assert_if_provided_choice_of_checks_include_all_check_methods ::
    "'c checker_class \<Rightarrow> py_exception + unit" where
  "assert_if_provided_choice_of_checks_include_all_check_methods cls =
     (case CHOICE_OF_CHECKS cls of
        None \<Rightarrow> Inr ()
      | Some choice \<Rightarrow>
          (case missing_check_method (automatically_get_all_check_methods cls) choice of
             None \<Rightarrow> Inr ()
           | Some name \<Rightarrow> Inl (AssertionError (''Missing check method: '' @ name))))"

definition get_checks_to_run :: "'c checker_class \<Rightarrow> 'c check_method list" where
  "get_checks_to_run cls =
     (case CHOICE_OF_CHECKS cls of
        None \<Rightarrow> automatically_get_all_check_methods cls
      | Some choice \<Rightarrow> map fst (filter snd choice))"

text \<open>
  The loop of \<open>_run_checks\<close>. The debug print is not modelled.
\<close>

fun run_checks_loop :: "('a BaseChecker_scheme) check_method list \<Rightarrow> 'a BaseChecker_scheme
    \<Rightarrow> py_exception + 'a BaseChecker_scheme" where
  "run_checks_loop [] self = Inr self"
| "run_checks_loop (check # rest) self =
     (let num_issues_before = int (length (issues self))
      in case call check self of
           Inl e \<Rightarrow> Inl e
         | Inr (should_stop, self') \<Rightarrow>
             (let num_created_issues = int (length (issues self')) - num_issues_before
              in if should_stop \<and> num_created_issues = 0
                 then Inl (AssertionError (''Check '' @ method_name check
                            @ '' returned True, but no issues were created.''))
                 else if issues self' \<noteq> [] \<and> (stop_after_first_issue self' \<or> should_stop)
                 then Inr self'
                 else run_checks_loop rest self'))"

definition run_checks_inner :: "('a BaseChecker_scheme) checker_class \<Rightarrow> 'a BaseChecker_scheme
    \<Rightarrow> py_exception + 'a BaseChecker_scheme" where
  "run_checks_inner cls self =
     (case assert_if_provided_choice_of_checks_include_all_check_methods cls of
        Inl e \<Rightarrow> Inl e
      | Inr u \<Rightarrow> run_checks_loop (get_checks_to_run cls) self)"


text \<open>
  The state in which the loop arrives behind a list of checks when it has run all of
  them: none raised, none broke its contract, and the loop did not stop after any.
\<close>

fun runs_through :: "('a BaseChecker_scheme) check_method list \<Rightarrow> 'a BaseChecker_scheme
    \<Rightarrow> 'a BaseChecker_scheme option" where
  "runs_through [] self = Some self"
| "runs_through (check # rest) self =
     (case call check self of
        Inl e \<Rightarrow> None
      | Inr (should_stop, self') \<Rightarrow>
          if should_stop \<and> length (issues self') = length (issues self) then None
          else if issues self' \<noteq> [] \<and> (stop_after_first_issue self' \<or> should_stop) then None
          else runs_through rest self')"

text \<open>
  Three small check methods, used to evaluate the loop at concrete inputs: one that does
  nothing, one that requests stop without creating an issue, one that appends an issue.
\<close>

definition check_nothing :: "BaseChecker check_method" where
  "check_nothing = \<lparr> method_name = ''check_nothing'', call = (\<lambda>self. Inr (False, self)) \<rparr>"

definition check_stop_without_issue :: "BaseChecker check_method" where
  "check_stop_without_issue =
     \<lparr> method_name = ''check_stop_without_issue'', call = (\<lambda>self. Inr (True, self)) \<rparr>"

definition example_issue :: RunIssue where
  "example_issue = \<lparr> category = None, item = None, issue = [Txt ''an issue''],
     instructions = [], code_problem = None, forgive_after = None \<rparr>"

definition check_with_issue :: "BaseChecker check_method" where
  "check_with_issue =
     \<lparr> method_name = ''check_with_issue'',
       call = (\<lambda>self. Inr (False, self\<lparr>issues := issues self @ [example_issue]\<rparr>)) \<rparr>"

definition new_checker :: "bool \<Rightarrow> BaseChecker" where
  "new_checker stop = \<lparr> issues = [], intermediate_results = [], stop_after_first_issue = stop \<rparr>"

section \<open>Checkers of the calls to df_to_latex and df_to_figure\<close>

text \<open>
  The keyword arguments of the checked call are a dict from the argument name to its
  value; \<open>kwarg_truthy\<close> is the truth value of a value.
\<close>

fun kwarg_truthy :: "kwarg \<Rightarrow> bool" where
  "kwarg_truthy KNone = False"
| "kwarg_truthy (KBool b) = b"
| "kwarg_truthy (KInt i) = (i \<noteq> 0)"
| "kwarg_truthy (KStr s) = (s \<noteq> [])"
| "kwarg_truthy (KStrList l) = (l \<noteq> [])"
| "kwarg_truthy (KDict d) = (d \<noteq> [])"

text \<open>
  An entry of \<open>prior_dfs\<close> is a data frame; the source skips the entry that is the
  very object \<open>self.df\<close>.
\<close>

datatype prior_df = SameObject | OtherDf DataFrame

text \<open>
  The class variables \<open>DEFAULT_CATEGORY\<close> and \<open>DEFAULT_CODE_PROBLEM\<close> are kept as
  fields, set by the constructor of each class. The field \<open>filename\<close> is named
  \<open>filename_df\<close>.
\<close>

record BaseDfChecker = BaseChecker +
  func_name :: string
  df :: DataFrame
  filename_df :: string
  kwargs :: "(string \<times> kwarg) list"
  DEFAULT_CATEGORY :: "string option"
  DEFAULT_CODE_PROBLEM :: "CodeProblem option"

record BaseContentDfChecker = BaseDfChecker +
  prior_dfs :: "(string \<times> prior_df) list"

definition append_issue :: "string option \<Rightarrow> string option \<Rightarrow> msg \<Rightarrow> msg \<Rightarrow> CodeProblem option
    \<Rightarrow> int option \<Rightarrow> 'a BaseDfChecker_scheme \<Rightarrow> 'a BaseDfChecker_scheme" where
  "append_issue category' item' issue' instructions' code_problem' forgive_after' self =
     self\<lparr>issues := issues self @
       [\<lparr> category = (case category' of None \<Rightarrow> DEFAULT_CATEGORY self | Some c \<Rightarrow> Some c),
          item = (case item' of None \<Rightarrow> Some (filename_df self) | Some i \<Rightarrow> Some i),
          issue = issue',
          instructions = instructions',
          code_problem =
            (case code_problem' of None \<Rightarrow> DEFAULT_CODE_PROBLEM self | Some p \<Rightarrow> Some p),
          forgive_after = forgive_after' \<rparr>]\<rparr>"

text \<open>The properties of \<open>BaseDfChecker\<close>; a property \<open>p\<close> is named \<open>p_prop\<close>.\<close>

definition kwargs_get :: "'a BaseDfChecker_scheme \<Rightarrow> string \<Rightarrow> kwarg \<Rightarrow> kwarg" where
  "kwargs_get self key default_value =
     (case map_of (kwargs self) key of None \<Rightarrow> default_value | Some v \<Rightarrow> v)"

definition is_figure :: "'a BaseDfChecker_scheme \<Rightarrow> bool" where
  "is_figure self \<longleftrightarrow> func_name self = ''df_to_figure''"

definition table_or_figure :: "'a BaseDfChecker_scheme \<Rightarrow> string" where
  "table_or_figure self = (if is_figure self then ''figure'' else ''table'')"

definition x_prop :: "'a BaseDfChecker_scheme \<Rightarrow> kwarg" where
  "x_prop self = kwargs_get self ''x'' KNone"

definition y_prop :: "'a BaseDfChecker_scheme \<Rightarrow> kwarg" where
  "y_prop self = kwargs_get self ''y'' KNone"

definition yerr_prop :: "'a BaseDfChecker_scheme \<Rightarrow> kwarg" where
  "yerr_prop self = kwargs_get self ''yerr'' KNone"

definition xerr_prop :: "'a BaseDfChecker_scheme \<Rightarrow> kwarg" where
  "xerr_prop self = kwargs_get self ''yerr'' KNone"

definition y_ci_prop :: "'a BaseDfChecker_scheme \<Rightarrow> kwarg" where
  "y_ci_prop self = kwargs_get self ''y_ci'' KNone"

definition x_ci_prop :: "'a BaseDfChecker_scheme \<Rightarrow> kwarg" where
  "x_ci_prop self = kwargs_get self ''x_ci'' KNone"

definition y_p_value_prop :: "'a BaseDfChecker_scheme \<Rightarrow> kwarg" where
  "y_p_value_prop self = kwargs_get self ''y_p_value'' KNone"

definition x_p_value_prop :: "'a BaseDfChecker_scheme \<Rightarrow> kwarg" where
  "x_p_value_prop self = kwargs_get self ''x_p_value'' KNone"

definition kind_prop :: "'a BaseDfChecker_scheme \<Rightarrow> kwarg" where
  "kind_prop self = kwargs_get self ''kind'' KNone"

definition index_prop :: "'a BaseDfChecker_scheme \<Rightarrow> bool" where
  "index_prop self =
     (if is_figure self
      then kwarg_truthy (kwargs_get self ''use_index'' (KBool True)) \<and> x_prop self = KNone
      else kwarg_truthy (kwargs_get self ''index'' (KBool True)))"

text \<open>
  \<open>get_xy_err_ci_p_value(x_or_y, as_list=True)\<close>: the four attributes of the axis; a
  string becomes the list of that string.
\<close>

fun as_list :: "kwarg \<Rightarrow> kwarg" where
  "as_list (KStr s) = KStrList [s]"
| "as_list v = v"

definition get_xy_err_ci_p_value_as_list :: "'a BaseDfChecker_scheme \<Rightarrow> string \<Rightarrow> kwarg list" where
  "get_xy_err_ci_p_value_as_list self x_or_y =
     (if x_or_y = ''x''
      then map as_list [x_prop self, xerr_prop self, x_ci_prop self, x_p_value_prop self]
      else map as_list [y_prop self, yerr_prop self, y_ci_prop self, y_p_value_prop self])"

subsection \<open>Data frames\<close>

fun index_len :: "Index \<Rightarrow> nat" where
  "index_len (Index dt labels) = length labels"
| "index_len (MultiIndex tuples) = length tuples"

text \<open>The labels an iteration over an index yields that are not tuples.\<close>

fun index_labels :: "Index \<Rightarrow> label list" where
  "index_labels (Index dt labels) = labels"
| "index_labels (MultiIndex tuples) = []"

text \<open>
  \<open>col in df.columns\<close> for a string: a label of the index, or for a multi-index a
  label of its first level.
\<close>

fun str_in_index :: "string \<Rightarrow> Index \<Rightarrow> bool" where
  "str_in_index col (Index dt labels) \<longleftrightarrow> LStr col \<in> set labels"
| "str_in_index col (MultiIndex tuples) \<longleftrightarrow> (\<exists>t\<in>set tuples. t \<noteq> [] \<and> hd t = LStr col)"

definition shape :: "DataFrame \<Rightarrow> nat \<times> nat" where
  "shape d = (index_len (df_index d), index_len (df_columns d))"

definition flatten :: "DataFrame \<Rightarrow> cell list" where
  "flatten d = concat (df_values d)"

text \<open>Python's \<open>==\<close> of a label and an \<open>int\<close>, and of two cells.\<close>

fun label_eq_int :: "label \<Rightarrow> int \<Rightarrow> bool" where
  "label_eq_int (LInt i) k \<longleftrightarrow> i = k"
| "label_eq_int (LBool b) k \<longleftrightarrow> (if b then 1 else 0) = k"
| "label_eq_int (LFloat r) k \<longleftrightarrow> r = of_int k"
| "label_eq_int (LStr s) k \<longleftrightarrow> False"
| "label_eq_int (LObj n) k \<longleftrightarrow> False"

fun numeric_value :: "cell \<Rightarrow> real option" where
  "numeric_value (IntV i) = Some (of_int i)"
| "numeric_value (FloatV r) = Some r"
| "numeric_value (BoolV b) = Some (if b then 1 else 0)"
| "numeric_value v = None"

definition cell_eq :: "cell \<Rightarrow> cell \<Rightarrow> bool" where
  "cell_eq a b \<longleftrightarrow>
     (case (numeric_value a, numeric_value b) of
        (Some r, Some q) \<Rightarrow> r = q
      | (None, None) \<Rightarrow> a \<noteq> NaN \<and> a = b
      | _ \<Rightarrow> False)"

text \<open>
  Modelled from the spec: \<open>is_non_integer_numeric\<close> of the module \<open>utils\<close> of the
  checkers, which is not among the sources. The spec speaks of "numeric non-integer
  values" and says that "integer-valued duplicates are not flagged": a float whose value
  is not an integer.
\<close>

fun is_non_integer_numeric :: "cell \<Rightarrow> bool" where
  "is_non_integer_numeric (FloatV r) \<longleftrightarrow> of_int \<lfloor>r\<rfloor> \<noteq> r"
| "is_non_integer_numeric v \<longleftrightarrow> False"

text \<open>
  Modelled from the spec: \<open>is_lower_eq\<close> of \<open>utils.numerics\<close> and the thresholds of
  \<open>get_max_rows_and_columns\<close>, which are not among the sources. The spec says that the
  thresholds "are looked up": the lookup is a parameter of the content checker, and a
  threshold that is \<open>None\<close> bounds nothing.
\<close>

fun is_lower_eq :: "nat \<Rightarrow> int option \<Rightarrow> bool" where
  "is_lower_eq a None = True"
| "is_lower_eq a (Some b) = (int a \<le> b)"

text \<open>\<open>str\<close> of a natural number, and \<open>sep.join\<close>.\<close>

definition digit :: "nat \<Rightarrow> char" where
  "digit n = char_of (48 + n)"

function str_nat :: "nat \<Rightarrow> string" where
  "str_nat n = (if n < 10 then [digit n] else str_nat (n div 10) @ [digit (n mod 10)])"
  by pat_completeness auto
termination
  by (relation "measure id") auto

declare str_nat.simps [simp del]

fun join :: "string \<Rightarrow> string list \<Rightarrow> string" where
  "join sep [] = []"
| "join sep [s] = s"
| "join sep (s # t) = s @ sep @ join sep t"

text \<open>\<open>list(zip(*np.where(values == example)))\<close>: the coordinates, row by row.\<close>

definition where_equal :: "cell list list \<Rightarrow> cell \<Rightarrow> (nat \<times> nat) list" where
  "where_equal rows example =
     concat (map (\<lambda>(r, row). map (\<lambda>(c, v). (r, c))
                    (filter (\<lambda>(c, v). cell_eq v example) (enumerate 0 row)))
               (enumerate 0 rows))"

text \<open>
  \<open>re.match(r'^df_\w+$', filename)\<close>: \<open>\w\<close> is a letter, a digit or the underscore
  (for the code points below 256), and \<open>$\<close> also matches before a final newline.
\<close>

definition is_word_char :: "char \<Rightarrow> bool" where
  "is_word_char c \<longleftrightarrow>
     (let n = (of_char c :: nat)
      in (48 \<le> n \<and> n \<le> 57) \<or> (65 \<le> n \<and> n \<le> 90) \<or> n = 95 \<or> (97 \<le> n \<and> n \<le> 122)
         \<or> n \<in> {170, 178, 179, 181, 185, 186, 188, 189, 190}
         \<or> (192 \<le> n \<and> n \<le> 214) \<or> (216 \<le> n \<and> n \<le> 246) \<or> (248 \<le> n \<and> n \<le> 255))"

definition matches_df_name :: "string \<Rightarrow> bool" where
  \<open>matches_df_name s \<longleftrightarrow>
     take 3 s = ''df_'' \<and>
     (let rest = drop 3 s;
          w = (if rest \<noteq> [] \<and> last rest = CHR ''\<newline>'' then butlast rest else rest)
      in w \<noteq> [] \<and> list_all is_word_char w)\<close>

subsection \<open>Syntax checkers\<close>

definition check_filename :: "('a BaseDfChecker_scheme) check_method" where
  \<open>check_filename = \<lparr> method_name = ''check_filename'',
     call = (\<lambda>self. Inr (False,
       if \<not> matches_df_name (filename_df self)
       then append_issue None None
              [Txt ''The filename of the '', Txt (table_or_figure self),
               Txt '' should be in the format `df_<alphanumeric>`, but got "'',
               Txt (filename_df self), Txt ''".'']
              [] None None self
       else self)) \<rparr>\<close>

definition check_no_label :: "('a BaseDfChecker_scheme) check_method" where
  \<open>check_no_label = \<lparr> method_name = ''check_no_label'',
     call = (\<lambda>self. Inr (False,
       if kwarg_truthy (kwargs_get self ''label'' KNone)
       then append_issue None None
              [Txt ''The `label` argument should not be used in `df_to_figure` or `df_to_latex`; It is automatically generated from the filename.'']
              [Txt ''Please remove the `label` argument.''] None None self
       else self)) \<rparr>\<close>

definition check_that_index_is_true :: "('a BaseDfChecker_scheme) check_method" where
  \<open>check_that_index_is_true = \<lparr> method_name = ''check_that_index_is_true'',
     call = (\<lambda>self. Inr (False,
       if \<not> index_prop self
       then append_issue None None
              [Txt ''Do not call `df_to_latex` with `index=False`.'']
              [Txt ''Please revise the code making sure all tables are created with `index=True`, and that the index is meaningful.'']
              None None self
       else self)) \<rparr>\<close>

definition check_column_arg_is_not_used :: "('a BaseDfChecker_scheme) check_method" where
  \<open>check_column_arg_is_not_used = \<lparr> method_name = ''check_column_arg_is_not_used'',
     call = (\<lambda>self. Inr (False,
       if map_of (kwargs self) ''columns'' \<noteq> None
       then append_issue None None
              [Txt ''Do not use the `columns` argument in `df_to_latex`.'']
              [Txt ''If you want to drop columns, do it before calling `df_to_latex`.'']
              None None self
       else self)) \<rparr>\<close>

definition ALLOWED_PLOT_KINDS :: "string list" where
  "ALLOWED_PLOT_KINDS = [''bar'']"

definition check_kind_arg :: "('a BaseDfChecker_scheme) check_method" where
  \<open>check_kind_arg = \<lparr> method_name = ''check_kind_arg'',
     call = (\<lambda>self. Inr (False,
       if kind_prop self = KNone
       then append_issue None None
              [Txt ''Plot `kind` is not specified.'']
              [Txt ''Please explicitly specify the `kind` argument. available options are:\<newline>'',
               StrListRepr ALLOWED_PLOT_KINDS, Txt ''.'']
              None None self
       else if kind_prop self \<notin> KStr ` set ALLOWED_PLOT_KINDS
       then append_issue None None
              [Txt ''Plot kind "'', KwargRepr (kind_prop self), Txt ''" is not supported.'']
              [Txt ''Only use these kinds: '', StrListRepr ALLOWED_PLOT_KINDS, Txt ''.'']
              None None self
       else self)) \<rparr>\<close>

definition check_y_arg :: "('a BaseDfChecker_scheme) check_method" where
  \<open>check_y_arg = \<lparr> method_name = ''check_y_arg'',
     call = (\<lambda>self. Inr (False,
       if y_prop self = KNone
       then append_issue None None
              [Txt ''No y values are specified.'']
              [Txt ''Please use the `y` argument to specify the columns to be plotted.'']
              None None self
       else self)) \<rparr>\<close>

definition check_yerr_arg :: "('a BaseDfChecker_scheme) check_method" where
  \<open>check_yerr_arg = \<lparr> method_name = ''check_yerr_arg'',
     call = (\<lambda>self. Inr (False,
       if yerr_prop self \<noteq> KNone
       then append_issue None None
              [Txt ''Do not use the `yerr` argument in `df_to_figure`.'']
              [Txt ''Instead, directly indicate the confidence intervals using the `y_ci` argument.'']
              None None self
       else self)) \<rparr>\<close>

text \<open>
  \<open>check_that_specified_columns_exist\<close>: the loop over the arguments of the two axes
  with their names. Iterating over an argument that is neither a list nor a dict raises.
\<close>

definition unspecified_columns_issue :: "string list \<Rightarrow> string \<Rightarrow> 'a BaseDfChecker_scheme
    \<Rightarrow> 'a BaseDfChecker_scheme" where
  \<open>unspecified_columns_issue un_specified_columns arg_name self =
     append_issue None None
       [Txt ''The columns '', StrListRepr un_specified_columns,
        Txt '' specified in the `'', Txt arg_name, Txt ''` argument do not exist in the df.'']
       [Txt ''Available columns are: '', IndexRepr (df_columns (df self)), Txt ''.'']
       None None self\<close>

fun iterate_arg :: "kwarg \<Rightarrow> py_exception + string list" where
  "iterate_arg (KStrList cols) = Inr cols"
| "iterate_arg (KDict d) = Inr (map fst d)"
| "iterate_arg (KStr s) = Inr (map (\<lambda>c. [c]) s)"
| "iterate_arg v = Inl TypeError"

fun specified_columns_loop :: "(kwarg \<times> string) list \<Rightarrow> 'a BaseDfChecker_scheme
    \<Rightarrow> py_exception + 'a BaseDfChecker_scheme" where
  "specified_columns_loop [] self = Inr self"
| "specified_columns_loop ((arg, arg_name) # rest) self =
     (if arg = KNone then specified_columns_loop rest self
      else case iterate_arg arg of
             Inl e \<Rightarrow> Inl e
           | Inr cols \<Rightarrow>
               (let un_specified_columns =
                      filter (\<lambda>col. \<not> str_in_index col (df_columns (df self))) cols
                in specified_columns_loop rest
                     (if un_specified_columns \<noteq> []
                      then unspecified_columns_issue un_specified_columns arg_name self
                      else self)))"

definition base_arg_names :: "string list" where
  "base_arg_names = [[], ''err'', ''_ci'', ''_p_value'']"

definition args_with_names :: "'a BaseDfChecker_scheme \<Rightarrow> (kwarg \<times> string) list" where
  "args_with_names self =
     concat (map (\<lambda>xy. zip (get_xy_err_ci_p_value_as_list self xy)
                            (map (\<lambda>arg_name. xy @ arg_name) base_arg_names))
               [''x'', ''y''])"

definition check_that_specified_columns_exist :: "('a BaseDfChecker_scheme) check_method" where
  "check_that_specified_columns_exist =
     \<lparr> method_name = ''check_that_specified_columns_exist'',
       call = (\<lambda>self. case specified_columns_loop (args_with_names self) self of
                        Inl e \<Rightarrow> Inl e
                      | Inr self' \<Rightarrow> Inr (False, self')) \<rparr>"


definition FigureSyntaxDfChecker_class :: "BaseDfChecker checker_class" where
  "FigureSyntaxDfChecker_class =
     \<lparr> check_methods = [check_filename, check_kind_arg, check_no_label,
                         check_that_specified_columns_exist, check_y_arg, check_yerr_arg],
       CHOICE_OF_CHECKS = Some [(check_filename, True), (check_no_label, True),
                                (check_kind_arg, True), (check_y_arg, True),
                                (check_yerr_arg, True),
                                (check_that_specified_columns_exist, True)] \<rparr>"

definition SyntaxDfChecker :: "string \<Rightarrow> DataFrame \<Rightarrow> string \<Rightarrow> (string \<times> kwarg) list
    \<Rightarrow> BaseDfChecker" where
  "SyntaxDfChecker func d file kw =
     \<lparr> issues = [], intermediate_results = [], stop_after_first_issue = False,
       func_name = func, df = d, filename_df = file, kwargs = kw,
       DEFAULT_CATEGORY = Some ''Checking df_to_figure/df_to_latex for call syntax'',
       DEFAULT_CODE_PROBLEM = Some OutputFileCallingSyntax \<rparr>"


definition FigureSyntaxDfChecker :: "DataFrame \<Rightarrow> string \<Rightarrow> (string \<times> kwarg) list
    \<Rightarrow> BaseDfChecker" where
  "FigureSyntaxDfChecker = SyntaxDfChecker ''df_to_figure''"

subsection \<open>Content checkers of the analysis step\<close>

definition VALUES_CATEGORY :: string where
  "VALUES_CATEGORY = ''Problem with df values''"

definition INDEX_COLUMN_CATEGORY :: string where
  "INDEX_COLUMN_CATEGORY = ''Problem with df index/columns''"

definition SIZE_CATEGORY :: string where
  "SIZE_CATEGORY = ''Too large df''"

definition OVERLAYING_VALUES_CATEGORY :: string where
  "OVERLAYING_VALUES_CATEGORY = ''Overlapping values''"

definition DF_DISPLAY_CATEGORY :: string where
  "DF_DISPLAY_CATEGORY = ''The df looks like a df.describe() table, not a scientific table''"

text \<open>\<open>check_df_value_types\<close>, with \<open>_check_if_df_within_df\<close>.\<close>

fun df_within_df_type :: "cell list \<Rightarrow> string option" where
  "df_within_df_type [] = None"
| "df_within_df_type (SeriesV # rest) = Some ''Series''"
| "df_within_df_type (DataFrameV # rest) = Some ''DataFrame''"
| "df_within_df_type (v # rest) = df_within_df_type rest"

fun un_allowed_type_name :: "cell \<Rightarrow> string option" where
  "un_allowed_type_name (ObjV name) = Some name"
| "un_allowed_type_name SeriesV = Some ''Series''"
| "un_allowed_type_name DataFrameV = Some ''DataFrame''"
| "un_allowed_type_name v = None"

definition check_df_value_types :: "('a BaseDfChecker_scheme) check_method" where
  \<open>check_df_value_types = \<lparr> method_name = ''check_df_value_types'',
     call = (\<lambda>self. Inr (False,
       case df_within_df_type (flatten (df self)) of
         Some type_name \<Rightarrow>
           append_issue (Some VALUES_CATEGORY) None
             [Txt ''Something wierd in your dataframe. Iterating over df.values.flatten() returned a `'',
              Txt type_name, Txt ''` object.'']
             [] None None self
       | None \<Rightarrow>
           (let un_allowed_type_names =
                  sort (remdups (List.map_filter un_allowed_type_name (flatten (df self))))
            in if un_allowed_type_names \<noteq> []
               then append_issue (Some VALUES_CATEGORY) None
                      [Txt ''Your dataframe contains values of types '',
                       TypeNamesRepr un_allowed_type_names, Txt '' which are not allowed.'']
                      [Txt ''Please make sure the saved dataframes have only numeric, str, bool, or tuple values.'']
                      None None self
               else self))) \<rparr>\<close>

text \<open>\<open>check_df_for_nan_values\<close>.\<close>

definition isnull :: "DataFrame \<Rightarrow> DataFrame" where
  "isnull d = d\<lparr>df_values := map (map (\<lambda>v. BoolV (v = NaN))) (df_values d)\<rparr>"

fun select_index :: "bool list \<Rightarrow> Index \<Rightarrow> Index" where
  "select_index selected (Index dt labels) =
     Index dt (map snd (filter fst (zip selected labels)))"
| "select_index selected (MultiIndex tuples) =
     MultiIndex (map snd (filter fst (zip selected tuples)))"

fun head_index :: "nat \<Rightarrow> Index \<Rightarrow> Index" where
  "head_index n (Index dt labels) = Index dt (take n labels)"
| "head_index n (MultiIndex tuples) = MultiIndex (take n tuples)"

definition rows_with_nan_head :: "DataFrame \<Rightarrow> DataFrame" where
  "rows_with_nan_head d =
     (let selected = map (\<lambda>row. NaN \<in> set row) (df_values d)
      in d\<lparr>df_index := head_index 10 (select_index selected (df_index d)),
            df_values := take 10 (map snd (filter fst (zip selected (df_values d))))\<rparr>)"

definition check_df_for_nan_values :: "('a BaseDfChecker_scheme) check_method" where
  \<open>check_df_for_nan_values = \<lparr> method_name = ''check_df_for_nan_values'',
     call = (\<lambda>self. Inr (False,
       let num_nulls = length (filter (\<lambda>v. v = NaN) (flatten (df self)))
       in if num_nulls > 0
          then append_issue (Some VALUES_CATEGORY) None
                 ([Txt ''Note that the df has '', IntRepr (int num_nulls), Txt '' NaN value(s).'']
                  @ (if fst (shape (df self)) < 20
                     then [Txt ''\<newline>Here is the `isnull` of the df:'',
                           Txt ''\<newline>```\<newline>'', DfCsvRepr (isnull (df self)),
                           Txt ''\<newline>```\<newline>'']
                     else [Txt ''\<newline>Here are some example lines with NaN values:'',
                           Txt ''\<newline>```\<newline>'', DfCsvRepr (rows_with_nan_head (df self)),
                           Txt ''\<newline>```\<newline>'']))
                 ([Txt ''Please revise the code to avoid NaN values in the created '',
                   Txt (table_or_figure self), Txt ''.'']
                  @ (if \<not> is_figure self
                     then [Txt ''\<newline>If the NaNs are legit and stand for missing values: replace them with the string '',
                           Txt [CHR 0x27, CHR ''-'', CHR 0x27],
                           Txt ''.\<newline>Otherwise, if they are computational errors, please revise the code to fix it.'']
                     else []))
                 None None self
          else self)) \<rparr>\<close>

text \<open>
  \<open>check_df_headers_type\<close>, for the allowed header types and the permission of a
  multi-index of the class, each given for the columns and for the index. A type is given
  by its name; \<open>bool\<close> is a subclass of \<open>int\<close>.
\<close>

fun label_type_name :: "label \<Rightarrow> string" where
  "label_type_name (LInt i) = ''int''"
| "label_type_name (LStr s) = ''str''"
| "label_type_name (LBool b) = ''bool''"
| "label_type_name (LFloat r) = ''float''"
| "label_type_name (LObj name) = name"

definition isinstance_label :: "label \<Rightarrow> string list \<Rightarrow> bool" where
  "isinstance_label header allowed_types \<longleftrightarrow>
     label_type_name header \<in> set allowed_types \<or>
     (label_type_name header = ''bool'' \<and> ''int'' \<in> set allowed_types)"

fun is_multi_index :: "Index \<Rightarrow> bool" where
  "is_multi_index (MultiIndex tuples) = True"
| "is_multi_index (Index dt labels) = False"

fun header_list :: "Index \<Rightarrow> label list" where
  "header_list (Index dt labels) = labels"
| "header_list (MultiIndex tuples) = concat (transpose tuples)"

definition get_unsupported_df_header_types :: "Index \<Rightarrow> string list \<Rightarrow> string list" where
  "get_unsupported_df_header_types headers allowed_types =
     rev (remdups (rev (map label_type_name
       (filter (\<lambda>header. \<not> isinstance_label header allowed_types) (header_list headers)))))"

definition check_headers_of :: "string \<Rightarrow> Index \<Rightarrow> string list \<Rightarrow> bool
    \<Rightarrow> 'a BaseDfChecker_scheme \<Rightarrow> 'a BaseDfChecker_scheme" where
  \<open>check_headers_of column_or_index headers allowed_types allow_multi_index self =
     (if \<not> allow_multi_index \<and> is_multi_index headers
      then append_issue (Some INDEX_COLUMN_CATEGORY) None
             [Txt ''Your dataframe has a multi-index for the '', Txt column_or_index, Txt ''.'']
             [Txt ''Please make sure the df has a single-level '', Txt column_or_index, Txt ''.'']
             None None self
      else (let unsupported_header_types =
                  get_unsupported_df_header_types headers allowed_types
            in if unsupported_header_types \<noteq> []
               then append_issue (Some INDEX_COLUMN_CATEGORY) None
                      [Txt ''Your df has '', Txt column_or_index,
                       Txt '' headers of unsupported types: '',
                       TypeNamesRepr unsupported_header_types, Txt ''.'']
                      [Txt ''The df '', Txt column_or_index, Txt '' headers should be '',
                       TypeNamesRepr allowed_types, Txt ''.'']
                      None None self
               else self))\<close>

definition check_df_headers_type :: "string list \<times> string list \<Rightarrow> bool \<times> bool
    \<Rightarrow> ('a BaseDfChecker_scheme) check_method" where
  "check_df_headers_type ALLOWED_COLUMN_AND_INDEX_TYPES ALLOW_MULTI_INDEX_FOR_COLUMN_AND_INDEX =
     \<lparr> method_name = ''check_df_headers_type'',
       call = (\<lambda>self. Inr (False,
         check_headers_of ''index'' (df_index (df self))
           (snd ALLOWED_COLUMN_AND_INDEX_TYPES) (snd ALLOW_MULTI_INDEX_FOR_COLUMN_AND_INDEX)
           (check_headers_of ''columns'' (df_columns (df self))
              (fst ALLOWED_COLUMN_AND_INDEX_TYPES) (fst ALLOW_MULTI_INDEX_FOR_COLUMN_AND_INDEX)
              self))) \<rparr>"

text \<open>\<open>check_df_index_is_a_range\<close>.\<close>

fun index_is_range :: "Index \<Rightarrow> nat \<Rightarrow> bool" where
  "index_is_range (MultiIndex tuples) num_rows = False"
| "index_is_range (Index dt labels) num_rows \<longleftrightarrow>
     list_all2 label_eq_int labels (map int [0..<num_rows]) \<and> dtype_eq_int dt"

definition check_df_index_is_a_range :: "('a BaseDfChecker_scheme) check_method" where
  \<open>check_df_index_is_a_range = \<lparr> method_name = ''check_df_index_is_a_range'',
     call = (\<lambda>self. Inr (False,
       if \<not> index_prop self then self
       else (let num_rows = fst (shape (df self))
             in if index_is_range (df_index (df self)) num_rows
                then (if is_figure self
                      then append_issue (Some INDEX_COLUMN_CATEGORY) None
                             [Txt ''We are using the index of the df as the x-values of the plot.\<newline>But, the index of df "'',
                              Txt (filename_df self), Txt ''" is just a range from 0 to '',
                              IntRepr (int num_rows - 1), Txt ''.\<newline>'']
                             [Txt ''Please revise the code making sure the figure is built with an index that represents meaningful numeric data. Or, for categorical data, the index should be a list of strings.\<newline>'']
                             None None self
                      else append_issue (Some INDEX_COLUMN_CATEGORY) None
                             [Txt ''The index of the df is used by `df_to_latex` as the row labels.\<newline>But, the index of df "'',
                              Txt (filename_df self), Txt ''" is just a range from 0 to '',
                              IntRepr (int num_rows - 1), Txt ''.\<newline>'']
                             [Txt ''Please revise the code making sure the df is built with an index that has meaningful row labels.\<newline>Labeling row with sequential numbers is not common in scientific tables. \<newline>Though, if you are sure that starting each row with a sequential number is really what you want, then convert it from int to strings, so that it is clear that it is not a mistake.\<newline>'']
                             None None self)
                else self))) \<rparr>\<close>

text \<open>\<open>check_df_size\<close>, for the lookup of the thresholds.\<close>

definition size_issue :: "nat \<Rightarrow> string \<Rightarrow> int option \<Rightarrow> int option \<times> int option
    \<Rightarrow> string \<Rightarrow> string \<Rightarrow> 'a BaseDfChecker_scheme \<Rightarrow> 'a BaseDfChecker_scheme" where
  \<open>size_issue n rows_or_columns max_allowed max_rows_and_columns trimming_note
       transpose_note self =
     append_issue (Some SIZE_CATEGORY) None
       [Txt ''The '', Txt (table_or_figure self), Txt '' df has '', IntRepr (int n), Txt '' '',
        Txt rows_or_columns, Txt '', which is too many for our '', Txt (table_or_figure self),
        Txt '' (max allowed: '', OptIntRepr max_allowed, Txt '').'']
       [Txt ''Please revise the code so that df of created '', Txt (table_or_figure self),
        Txt '' have a maximum of '', OptIntRepr (fst max_rows_and_columns), Txt '' rows and '',
        OptIntRepr (snd max_rows_and_columns), Txt '' columns.\<newline>'',
        Txt trimming_note, Txt transpose_note]
       None None self\<close>

definition check_df_size :: "(bool \<Rightarrow> kwarg \<Rightarrow> int option \<times> int option)
    \<Rightarrow> ('a BaseDfChecker_scheme) check_method" where
  \<open>check_df_size get_max_rows_and_columns = \<lparr> method_name = ''check_df_size'',
     call = (\<lambda>self. Inr (False,
       let sh = shape (df self);
           max_rows_and_columns = get_max_rows_and_columns (is_figure self) (kind_prop self)
       in if is_lower_eq (fst sh) (fst max_rows_and_columns) \<and>
             is_lower_eq (snd sh) (snd max_rows_and_columns)
          then self
          else (let transpose_note =
                      (if is_lower_eq (fst sh) (snd max_rows_and_columns) \<and>
                          is_lower_eq (snd sh) (fst max_rows_and_columns)
                       then ''You might also consider transposing the df.\<newline>'' else []);
                    trimming_note =
                      ''Note that simply trimming the data is not always a good solution. You might instead consider a different representation/organization of the presented data.\<newline>''
                      @ (if \<not> is_figure self
                         then ''Or, consider representing the data as a figure.\<newline>'' else []);
                    self1 =
                      (if \<not> is_lower_eq (fst sh) (fst max_rows_and_columns)
                       then size_issue (fst sh) ''rows'' (fst max_rows_and_columns)
                              max_rows_and_columns trimming_note transpose_note self
                       else self)
                in if \<not> is_lower_eq (snd sh) (snd max_rows_and_columns)
                   then size_issue (snd sh) ''columns'' (snd max_rows_and_columns)
                          max_rows_and_columns trimming_note transpose_note self1
                   else self1))) \<rparr>\<close>

text \<open>The checks of \<open>TableDfContentChecker\<close>.\<close>

definition description_labels :: "string list" where
  "description_labels = [''mean'', ''std'', ''min'', ''25%'', ''50%'', ''75%'', ''max'']"

definition labels_issubset :: "string list \<Rightarrow> Index \<Rightarrow> bool" where
  "labels_issubset labels idx \<longleftrightarrow> (\<forall>l\<in>set labels. LStr l \<in> set (index_labels idx))"

definition check_df_is_a_result_of_describe :: "('a BaseDfChecker_scheme) check_method" where
  \<open>check_df_is_a_result_of_describe = \<lparr> method_name = ''check_df_is_a_result_of_describe'',
     call = (\<lambda>self. Inr (False,
       if labels_issubset description_labels (df_columns (df self)) \<or>
          labels_issubset description_labels (df_index (df self))
       then append_issue (Some DF_DISPLAY_CATEGORY) None
              [Txt ''The df includes mean, std, as well as quantiles and min/max values.'']
              [Txt ''Note that in scientific tables, it is not customary to include quantiles, or min/max values, especially if the mean and std are also included.\<newline>Please revise the code so that the tables only include scientifically relevant statistics.\<newline>'']
              None (Some 3) self
       else self)) \<rparr>\<close>

definition format_position :: "nat \<times> nat \<Rightarrow> string" where
  "format_position p = ''('' @ str_nat (fst p) @ '', '' @ str_nat (snd p) @ '')''"

definition check_df_for_repeated_values :: "('a BaseDfChecker_scheme) check_method" where
  \<open>check_df_for_repeated_values = \<lparr> method_name = ''check_df_for_repeated_values'',
     call = (\<lambda>self.
       let df_values' = filter is_non_integer_numeric (flatten (df self))
       in if \<not> distinct df_values'
          then (let duplicated_values =
                      filter (\<lambda>v. length (filter (\<lambda>u. cell_eq u v) df_values') > 1) df_values'
                in case duplicated_values of
                     [] \<Rightarrow> Inl IndexError
                   | example_value # others \<Rightarrow>
                       (let duplicated_value_positions =
                              join '', '' (map format_position
                                (where_equal (df_values (df self)) example_value))
                        in Inr (False,
                             append_issue (Some OVERLAYING_VALUES_CATEGORY) None
                               [Txt ''Note that the df "'', Txt (filename_df self),
                                Txt ''" includes the same values in multiple cells.\<newline>For example, the value '',
                                CellRepr example_value,
                                Txt '' appears in the following cells:\<newline>'',
                                Txt duplicated_value_positions, Txt ''.'']
                               [Txt ''This is likely a mistake and is surely confusing to the reader.\<newline>Please revise the code so that the df does not repeat the same values in multiple cells.\<newline>'']
                               None (Some 1) self)))
          else Inr (False, self)) \<rparr>\<close>

fun prior_dfs_loop :: "cell list \<Rightarrow> (string \<times> prior_df) list \<Rightarrow> 'a BaseDfChecker_scheme
    \<Rightarrow> 'a BaseDfChecker_scheme" where
  "prior_dfs_loop df_values' [] self = self"
| "prior_dfs_loop df_values' ((prior_name, SameObject) # rest) self =
     prior_dfs_loop df_values' rest self"
| \<open>prior_dfs_loop df_values' ((prior_name, OtherDf prior_table) # rest) self =
     (let prior_table_values = filter is_non_integer_numeric (flatten prior_table)
      in prior_dfs_loop df_values' rest
           (if \<exists>v\<in>set df_values'. \<exists>u\<in>set prior_table_values. cell_eq u v
            then append_issue (Some OVERLAYING_VALUES_CATEGORY) None
                   [Txt ''Table "'', Txt (filename_df self),
                    Txt ''" includes values that overlap with values in table "'',
                    Txt prior_name, Txt ''".'']
                   [Txt ''In scientific tables, it is not customary to include the same values in multiple tables.\<newline>Please revise the code so that each table include its own unique data.\<newline>'']
                   None (Some 1) self
            else self))\<close>

definition check_df_for_repeated_values_in_prior_dfs ::
    "('a BaseContentDfChecker_scheme) check_method" where
  "check_df_for_repeated_values_in_prior_dfs =
     \<lparr> method_name = ''check_df_for_repeated_values_in_prior_dfs'',
       call = (\<lambda>self. Inr (False,
         if prior_dfs self = [] then self
         else prior_dfs_loop (filter is_non_integer_numeric (flatten (df self)))
                (prior_dfs self) self)) \<rparr>"


definition TableDfContentChecker :: "DataFrame \<Rightarrow> string \<Rightarrow> (string \<times> kwarg) list
    \<Rightarrow> BaseContentDfChecker" where
  "TableDfContentChecker d file kw =
     \<lparr> issues = [], intermediate_results = [], stop_after_first_issue = True,
       func_name = ''df_to_latex'', df = d, filename_df = file, kwargs = kw,
       DEFAULT_CATEGORY = Some ''Checking content of created dfs'',
       DEFAULT_CODE_PROBLEM = Some OutputFileContentA,
       prior_dfs = [] \<rparr>"

subsection \<open>Chains of checkers\<close>








text \<open>
  The table of the end-to-end scenario: three rows and three columns, the index 0 to 2,
  and the value 3.14 in the cells (0, 0) and (1, 1).
\<close>

definition table_3x3 :: DataFrame where
  "table_3x3 =
     \<lparr> df_index = Index Int64 [LInt 0, LInt 1, LInt 2],
       df_columns = Index ObjectDtype [LStr ''a'', LStr ''b'', LStr ''c''],
       df_values = [[FloatV 3.14, FloatV 1.5, IntV 2],
                    [FloatV 2.5, FloatV 3.14, IntV 7],
                    [FloatV 0.25, FloatV 4.75, IntV 1]] \<rparr>"

section \<open>Properties of the output file requirements\<close>

lemma filter_singleton_unique_index:
  assumes "i < length xs" "P (xs ! i)" "\<forall>j<length xs. P (xs ! j) \<longrightarrow> j = i"
  shows "filter P xs = [xs ! i]"
proof -
  have xs: "xs = take i xs @ xs ! i # drop (Suc i) xs"
    using assms(1) by (simp add: id_take_nth_drop)
  have a: "filter P (take i xs) = []"
  proof -
    have "\<forall>x\<in>set (take i xs). \<not> P x"
    proof
      fix x assume "x \<in> set (take i xs)"
      then obtain j where j: "j < length (take i xs)" "take i xs ! j = x"
        by (auto simp: in_set_conv_nth)
      then have "j < i" "j < length xs" "xs ! j = x" using assms(1) by auto
      then show "\<not> P x" using assms(3) by auto
    qed
    then show ?thesis by (simp add: filter_empty_conv)
  qed
  have b: "filter P (drop (Suc i) xs) = []"
  proof -
    have "\<forall>x\<in>set (drop (Suc i) xs). \<not> P x"
    proof
      fix x assume "x \<in> set (drop (Suc i) xs)"
      then obtain j where j: "j < length (drop (Suc i) xs)" "drop (Suc i) xs ! j = x"
        by (auto simp: in_set_conv_nth)
      then have "Suc i + j < length xs" by simp
      moreover have "xs ! (Suc i + j) = x" using j assms(1) by simp
      moreover have "Suc i + j \<noteq> i" by simp
      ultimately show "\<not> P x" using assms(3) by metis
    qed
    then show ?thesis by (simp add: filter_empty_conv)
  qed
  have "filter P xs = filter P (take i xs) @ filter P [xs ! i] @ filter P (drop (Suc i) xs)"
    by (subst xs) simp
  then show ?thesis using a b assms(2) by simp
qed

lemma filter_length_one_unique_index:
  assumes "length (filter P xs) = 1"
  shows "\<exists>i<length xs. P (xs ! i) \<and> (\<forall>j<length xs. P (xs ! j) \<longrightarrow> j = i)"
proof -
  from assms obtain y where y: "filter P xs = [y]"
    by (cases "filter P xs") auto
  then obtain us vs where uv: "xs = us @ y # vs" "\<forall>u\<in>set us. \<not> P u" "P y" "\<forall>v\<in>set vs. \<not> P v"
    unfolding filter_eq_Cons_iff by (auto simp: filter_empty_conv dest: sym)
  have "\<forall>j<length xs. P (xs ! j) \<longrightarrow> j = length us"
  proof (intro allI impI)
    fix j assume j: "j < length xs" "P (xs ! j)"
    show "j = length us"
    proof (rule ccontr)
      assume ne: "j \<noteq> length us"
      show False
      proof (cases "j < length us")
        case True
        then have "xs ! j \<in> set us" by (simp add: uv(1) nth_append)
        then show False using uv(2) j(2) by blast
      next
        case False
        then have gt: "length us < j" using ne by simp
        then have "xs ! j = vs ! (j - Suc (length us))"
          by (simp add: uv(1) nth_append nth_Cons')
        moreover have "j - Suc (length us) < length vs" using j(1) gt by (simp add: uv(1))
        ultimately have "xs ! j \<in> set vs" by simp
        then show False using uv(4) j(2) by blast
      qed
    qed
  qed
  moreover have "length us < length xs" "P (xs ! length us)" using uv by simp_all
  ultimately show ?thesis by blast
qed

text \<open>
  Claim C10. \<open>get_single_content_file\<close> returns the filename of a requirement exactly when
  precisely one entry of the collection is content-bearing, non-wildcard and has minimal
  count 1, and that filename is the entry's; whenever there is no such entry, or more than
  one, it returns \<open>None\<close>.
\<close>

theorem get_single_content_file_unique:
  "(\<forall>i. i < length self \<and> is_single_content_candidate (self ! i) \<and>
         (\<forall>j<length self. is_single_content_candidate (self ! j) \<longrightarrow> j = i)
        \<longrightarrow> get_single_content_file self = Some (filename (self ! i))) \<and>
   ((\<nexists>i. i < length self \<and> is_single_content_candidate (self ! i) \<and>
         (\<forall>j<length self. is_single_content_candidate (self ! j) \<longrightarrow> j = i))
        \<longrightarrow> get_single_content_file self = None)"
proof (intro conjI allI impI)
  fix i
  assume "i < length self \<and> is_single_content_candidate (self ! i) \<and>
         (\<forall>j<length self. is_single_content_candidate (self ! j) \<longrightarrow> j = i)"
  then have "filter is_single_content_candidate self = [self ! i]"
    by (intro filter_singleton_unique_index) auto
  then show "get_single_content_file self = Some (filename (self ! i))"
    by (simp add: get_single_content_file_def)
next
  assume no: "\<nexists>i. i < length self \<and> is_single_content_candidate (self ! i) \<and>
         (\<forall>j<length self. is_single_content_candidate (self ! j) \<longrightarrow> j = i)"
  have "length (filter is_single_content_candidate self) \<noteq> 1"
    using filter_length_one_unique_index [of is_single_content_candidate self] no by blast
  then show "get_single_content_file self = None"
    by (simp add: get_single_content_file_def)
qed

theorem get_single_content_file_unique_witness:
  "get_single_content_file
      [DataOutputFileRequirement ''data.csv'' 0 (Flag True),
       TextContentOutputFileRequirement ''out.txt'' 1 (Flag False) None (Some 100)] = Some ''out.txt'' \<and>
   get_single_content_file
     [TextContentOutputFileRequirement ''a.txt'' 1 (Flag False) None None,
      TextContentOutputFileRequirement ''b.txt'' 1 (Flag False) None None] = None"
proof -
  let ?d = "DataOutputFileRequirement ''data.csv'' 0 (Flag True)"
  let ?t = "TextContentOutputFileRequirement ''out.txt'' 1 (Flag False) None (Some 100)"
  let ?a = "TextContentOutputFileRequirement ''a.txt'' 1 (Flag False) None None"
  let ?b = "TextContentOutputFileRequirement ''b.txt'' 1 (Flag False) None None"
  have ct: "is_single_content_candidate ?t"
    by (simp add: is_single_content_candidate_def is_wildcard_def)
  have cd: "\<not> is_single_content_candidate ?d"
    by (simp add: is_single_content_candidate_def)
  have u: "\<forall>j<length [?d, ?t]. is_single_content_candidate ([?d, ?t] ! j) \<longrightarrow> j = 1"
  proof (intro allI impI)
    fix j assume j: "j < length [?d, ?t]" "is_single_content_candidate ([?d, ?t] ! j)"
    have "j \<noteq> 0" using j(2) cd by (cases j) simp_all
    moreover have "j < 2" using j(1) by simp
    ultimately show "j = 1" by simp
  qed
  have h: "1 < length [?d, ?t] \<and> is_single_content_candidate ([?d, ?t] ! 1) \<and>
      (\<forall>j<length [?d, ?t]. is_single_content_candidate ([?d, ?t] ! j) \<longrightarrow> j = 1)"
    using ct u by simp
  have "get_single_content_file [?d, ?t] = Some (filename ([?d, ?t] ! 1))"
    using get_single_content_file_unique [of "[?d, ?t]", THEN conjunct1, rule_format, OF h] .
  then have one: "get_single_content_file [?d, ?t] = Some ''out.txt''" by simp
  have ca: "is_single_content_candidate ?a" and cb: "is_single_content_candidate ?b"
    by (simp_all add: is_single_content_candidate_def is_wildcard_def)
  have n: "\<nexists>i. i < length [?a, ?b] \<and> is_single_content_candidate ([?a, ?b] ! i) \<and>
         (\<forall>j<length [?a, ?b]. is_single_content_candidate ([?a, ?b] ! j) \<longrightarrow> j = i)"
  proof
    assume "\<exists>i. i < length [?a, ?b] \<and> is_single_content_candidate ([?a, ?b] ! i) \<and>
         (\<forall>j<length [?a, ?b]. is_single_content_candidate ([?a, ?b] ! j) \<longrightarrow> j = i)"
    then obtain i where i: "\<forall>j<length [?a, ?b]. is_single_content_candidate ([?a, ?b] ! j) \<longrightarrow> j = i"
      by blast
    have "0 < length [?a, ?b]" "is_single_content_candidate ([?a, ?b] ! 0)" using ca by simp_all
    then have i0: "0 = i" using i by blast
    have "Suc 0 < length [?a, ?b]" "is_single_content_candidate ([?a, ?b] ! Suc 0)" using cb by simp_all
    then have "Suc 0 = i" using i by blast
    then show False using i0 by simp
  qed
  have two: "get_single_content_file [?a, ?b] = None"
    using get_single_content_file_unique [of "[?a, ?b]", THEN conjunct2, rule_format, OF n] .
  show ?thesis using one two by simp
qed

subsection \<open>Reconciliation\<close>

lemma dict_set_keys:
  "map fst (dict_set k v d) = (if k \<in> set (map fst d) then map fst d else map fst d @ [k])"
  by (induction d) auto

lemma empty_lists_dict_keys:
  "distinct (map fst d) \<Longrightarrow>
   distinct (map fst (empty_lists_dict rs d)) \<and>
   set (map fst (empty_lists_dict rs d)) = set (map fst d) \<union> set rs"
proof (induction rs arbitrary: d)
  case Nil
  then show ?case by simp
next
  case (Cons r rs)
  have "distinct (map fst (dict_set r [] d))"
    using Cons.prems by (simp add: dict_set_keys)
  from Cons.IH [OF this] show ?case
    by (auto simp: dict_set_keys split: if_splits)
qed

lemma dict_set_values_empty:
  "\<forall>p\<in>set d. snd p = [] \<Longrightarrow> \<forall>p\<in>set (dict_set k [] d). snd p = []"
  by (induction d) auto

lemma empty_lists_dict_values:
  "\<forall>p\<in>set d. snd p = [] \<Longrightarrow> \<forall>p\<in>set (empty_lists_dict rs d). snd p = []"
proof (induction rs arbitrary: d)
  case Nil
  then show ?case by simp
next
  case (Cons r rs)
  show ?case using Cons.IH [OF dict_set_values_empty [OF Cons.prems]] by simp
qed

lemma dict_append_keys: "map fst (dict_append k x d) = map fst d"
  by (induction d) auto

lemma map_of_dict_append:
  "map_of (dict_append k x d) r =
     (if r = k then map_option (\<lambda>l. l @ [x]) (map_of d k) else map_of d r)"
  by (induction d) auto

lemma mset_concat_dict_append:
  "k \<in> set (map fst d) \<Longrightarrow>
   mset (concat (map snd (dict_append k x d))) = mset (concat (map snd d)) + {#x#}"
  by (induction d) auto

lemma first_matching_requirement_Some_iff:
  "first_matching_requirement fm self file = Some r \<longleftrightarrow>
     (\<exists>i<length self. self ! i = r \<and> matches fm r file \<and>
        (\<forall>j<i. \<not> matches fm (self ! j) file))"
proof (induction self)
  case Nil
  then show ?case by simp
next
  case (Cons a self)
  show ?case
  proof (cases "matches fm a file")
    case True
    have "(\<exists>i<length (a # self). (a # self) ! i = r \<and> matches fm r file \<and>
        (\<forall>j<i. \<not> matches fm ((a # self) ! j) file)) \<longleftrightarrow> a = r"
    proof
      assume "\<exists>i<length (a # self). (a # self) ! i = r \<and> matches fm r file \<and>
        (\<forall>j<i. \<not> matches fm ((a # self) ! j) file)"
      then obtain i where i: "(a # self) ! i = r" "\<forall>j<i. \<not> matches fm ((a # self) ! j) file"
        by blast
      have "i = 0"
      proof (rule ccontr)
        assume "i \<noteq> 0"
        then have "\<not> matches fm ((a # self) ! 0) file" using i(2) by blast
        then show False using True by simp
      qed
      then show "a = r" using i(1) by simp
    next
      assume "a = r"
      then have "(a # self) ! 0 = r \<and> matches fm r file \<and>
        (\<forall>j<0. \<not> matches fm ((a # self) ! j) file)" using True by simp
      then show "\<exists>i<length (a # self). (a # self) ! i = r \<and> matches fm r file \<and>
        (\<forall>j<i. \<not> matches fm ((a # self) ! j) file)" by (intro exI [of _ 0]) simp
    qed
    then show ?thesis using True by simp
  next
    case False
    have "(\<exists>i<length (a # self). (a # self) ! i = r \<and> matches fm r file \<and>
        (\<forall>j<i. \<not> matches fm ((a # self) ! j) file)) \<longleftrightarrow>
      (\<exists>i<length self. self ! i = r \<and> matches fm r file \<and>
        (\<forall>j<i. \<not> matches fm (self ! j) file))" (is "?L \<longleftrightarrow> ?R")
    proof
      assume ?L
      then obtain i where i: "i < length (a # self)" "(a # self) ! i = r" "matches fm r file"
         "\<forall>j<i. \<not> matches fm ((a # self) ! j) file" by blast
      have "i \<noteq> 0" using i(2,3) False by (cases i) auto
      then obtain i' where i': "i = Suc i'" by (cases i) auto
      have "\<forall>j<i'. \<not> matches fm (self ! j) file"
      proof (intro allI impI)
        fix j assume "j < i'"
        then have "Suc j < i" using i' by simp
        then have "\<not> matches fm ((a # self) ! Suc j) file" using i(4) by blast
        then show "\<not> matches fm (self ! j) file" by simp
      qed
      then show ?R using i i' by auto
    next
      assume ?R
      then obtain i where i: "i < length self" "self ! i = r" "matches fm r file"
         "\<forall>j<i. \<not> matches fm (self ! j) file" by blast
      have "\<forall>j<Suc i. \<not> matches fm ((a # self) ! j) file"
      proof (intro allI impI)
        fix j assume "j < Suc i"
        then show "\<not> matches fm ((a # self) ! j) file"
          using i(4) False by (cases j) auto
      qed
      then have "Suc i < length (a # self) \<and> (a # self) ! Suc i = r \<and> matches fm r file \<and>
         (\<forall>j<Suc i. \<not> matches fm ((a # self) ! j) file)" using i by simp
      then show ?L by blast
    qed
    then show ?thesis using False Cons.IH by simp
  qed
qed

lemma first_matching_requirement_None_iff:
  "first_matching_requirement fm self file = None \<longleftrightarrow> (\<forall>r\<in>set self. \<not> matches fm r file)"
  by (induction self) auto

lemma first_matching_requirement_in_set:
  "first_matching_requirement fm self file = Some r \<Longrightarrow> r \<in> set self"
  by (induction self) (auto split: if_splits)

lemma reconcile_loop_invariant:
  "reconcile_loop fm self files (d, un) = (d', un') \<Longrightarrow>
   map fst d' = map fst d \<and>
   (\<forall>r. map_of d' r =
      map_option (\<lambda>l. l @ filter (\<lambda>f. first_matching_requirement fm self f = Some r) files)
        (map_of d r)) \<and>
   un' = un @ filter (\<lambda>f. first_matching_requirement fm self f = None) files"
proof (induction files arbitrary: d un)
  case Nil
  then show ?case by (simp add: option.map_ident)
next
  case (Cons f files)
  show ?case
  proof (cases "first_matching_requirement fm self f")
    case None
    with Cons.prems have "reconcile_loop fm self files (d, un @ [f]) = (d', un')" by simp
    from Cons.IH [OF this] show ?thesis using None by simp
  next
    case (Some k)
    with Cons.prems have "reconcile_loop fm self files (dict_append k f d, un) = (d', un')"
      by simp
    from Cons.IH [OF this] show ?thesis using Some
      by (auto simp: dict_append_keys map_of_dict_append option.map_comp o_def
               intro!: option.map_cong)
  qed
qed

lemma reconcile_loop_mset:
  "reconcile_loop fm self files (d, un) = (d', un') \<Longrightarrow> set self \<subseteq> set (map fst d) \<Longrightarrow>
   mset (concat (map snd d')) + mset un' = mset (concat (map snd d)) + mset un + mset files"
proof (induction files arbitrary: d un)
  case Nil
  then show ?case by simp
next
  case (Cons f files)
  show ?case
  proof (cases "first_matching_requirement fm self f")
    case None
    with Cons.prems have "reconcile_loop fm self files (d, un @ [f]) = (d', un')" by simp
    from Cons.IH [OF this Cons.prems(2)] show ?thesis by simp
  next
    case (Some k)
    with Cons.prems have l: "reconcile_loop fm self files (dict_append k f d, un) = (d', un')"
      by simp
    have k: "k \<in> set (map fst d)"
      using first_matching_requirement_in_set [OF Some] Cons.prems(2) by blast
    have "set self \<subseteq> set (map fst (dict_append k f d))"
      using Cons.prems(2) by (simp add: dict_append_keys)
    from Cons.IH [OF l this] show ?thesis
      by (simp add: mset_concat_dict_append [OF k])
  qed
qed


lemma empty_lists_dict_lookup:
  assumes "r \<in> set self"
  shows "map_of (empty_lists_dict self []) r = Some []"
proof -
  have k: "r \<in> set (map fst (empty_lists_dict self []))"
    using empty_lists_dict_keys [of "[]" self] assms by simp
  then obtain v where v: "(r, v) \<in> set (empty_lists_dict self [])" by auto
  have "\<forall>p\<in>set (empty_lists_dict self []). snd p = []"
    by (rule empty_lists_dict_values) simp
  then have "v = []" using v by fastforce
  moreover have "distinct (map fst (empty_lists_dict self []))"
    using empty_lists_dict_keys [of "[]" self] by simp
  ultimately show ?thesis using v by (simp add: map_of_eq_Some_iff)
qed

text \<open>
  Claim C3. Reconciliation keeps one dictionary entry per requirement; the files listed
  under a requirement are exactly the created files whose first matching requirement, in
  declaration order, it is (in the order they were created); the unmatched list is exactly
  the created files that no requirement matches; so every occurrence of a created file is
  in exactly one place: the lists of the dictionary and the unmatched list together hold
  the created files, each as often as it was created, no file is under two requirements,
  and no file is both under a requirement and unmatched.
\<close>

theorem reconcile_first_match_wins:
  assumes "get_requirements_to_output_files_and_unmatched_files fm self created_files
             = (d, unmatched)"
  shows "distinct (map fst d) \<and> set (map fst d) = set self \<and>
    (\<forall>r\<in>set self. map_of d r =
       Some (filter (\<lambda>f. \<exists>i<length self. self ! i = r \<and> matches fm r f \<and>
                            (\<forall>j<i. \<not> matches fm (self ! j) f)) created_files)) \<and>
    unmatched = filter (\<lambda>f. \<forall>r\<in>set self. \<not> matches fm r f) created_files \<and>
    mset created_files = mset unmatched + mset (concat (map snd d)) \<and>
    (\<forall>f r r' fs fs'. (r, fs) \<in> set d \<and> (r', fs') \<in> set d \<and> f \<in> set fs \<and> f \<in> set fs'
        \<longrightarrow> r = r') \<and>
    (\<forall>f r fs. (r, fs) \<in> set d \<and> f \<in> set fs \<longrightarrow> f \<notin> set unmatched)"
proof -
  let ?d0 = "empty_lists_dict self []"
  let ?first = "\<lambda>r f. first_matching_requirement fm self f = Some r"
  have loop: "reconcile_loop fm self created_files (?d0, []) = (d, unmatched)"
    using assms by (simp add: get_requirements_to_output_files_and_unmatched_files_def)
  have keys0: "distinct (map fst ?d0)" "set (map fst ?d0) = set self"
    using empty_lists_dict_keys [of "[]" self] by simp_all
  note inv = reconcile_loop_invariant [OF loop]
  have keys: "distinct (map fst d)" "set (map fst d) = set self"
    using inv keys0 by simp_all
  have look: "map_of d r = Some (filter (?first r) created_files)" if "r \<in> set self" for r
    using inv empty_lists_dict_lookup [OF that] by simp
  have un: "unmatched = filter (\<lambda>f. \<forall>r\<in>set self. \<not> matches fm r f) created_files"
    using inv by (simp add: first_matching_requirement_None_iff)
  have values0: "concat (map snd ?d0) = []"
    using empty_lists_dict_values [of "[]" self] by (simp add: concat_eq_Nil_conv)
  have "mset (concat (map snd d)) + mset unmatched
          = mset (concat (map snd ?d0)) + mset [] + mset created_files"
    by (rule reconcile_loop_mset [OF loop]) (use keys0 in simp)
  then have ms: "mset created_files = mset unmatched + mset (concat (map snd d))"
    using values0 by (simp add: ac_simps)
  have entry: "fs = filter (?first r) created_files" if "(r, fs) \<in> set d" for r fs
  proof -
    have "r \<in> set self" using that keys(2) by force
    from look [OF this] have "map_of d r = Some (filter (?first r) created_files)" .
    moreover have "map_of d r = Some fs" using that keys(1) by simp
    ultimately show ?thesis by simp
  qed
  have uniq: "\<forall>f r r' fs fs'. (r, fs) \<in> set d \<and> (r', fs') \<in> set d \<and> f \<in> set fs \<and> f \<in> set fs'
        \<longrightarrow> r = r'"
  proof (intro allI impI)
    fix f r r' fs fs'
    assume a: "(r, fs) \<in> set d \<and> (r', fs') \<in> set d \<and> f \<in> set fs \<and> f \<in> set fs'"
    then have "f \<in> set (filter (?first r) created_files)"
       "f \<in> set (filter (?first r') created_files)"
      using entry by blast+
    then show "r = r'" by simp
  qed
  have excl: "\<forall>f r fs. (r, fs) \<in> set d \<and> f \<in> set fs \<longrightarrow> f \<notin> set unmatched"
  proof (intro allI impI)
    fix f r fs
    assume a: "(r, fs) \<in> set d \<and> f \<in> set fs"
    then have "f \<in> set (filter (?first r) created_files)" using entry by blast
    then have "first_matching_requirement fm self f = Some r" by simp
    moreover have "unmatched = filter (\<lambda>f. first_matching_requirement fm self f = None) created_files"
      using inv by simp
    ultimately show "f \<notin> set unmatched" by simp
  qed
  have look': "\<forall>r\<in>set self. map_of d r =
       Some (filter (\<lambda>f. \<exists>i<length self. self ! i = r \<and> matches fm r f \<and>
                            (\<forall>j<i. \<not> matches fm (self ! j) f)) created_files)"
    using look by (simp add: first_matching_requirement_Some_iff)
  show ?thesis using keys look' un ms uniq excl by blast
qed

theorem reconcile_first_match_wins_witness:
  "map_of (fst (get_requirements_to_output_files_and_unmatched_files glob
      [TextContentOutputFileRequirement ''out.txt'' 1 (Flag False) None None,
       DataOutputFileRequirement ''*.txt'' 0 (Flag True)]
      [''a.txt'', ''out.txt'', ''b.csv''])) (DataOutputFileRequirement ''*.txt'' 0 (Flag True))
     = Some [''a.txt''] \<and>
   snd (get_requirements_to_output_files_and_unmatched_files glob
      [TextContentOutputFileRequirement ''out.txt'' 1 (Flag False) None None,
       DataOutputFileRequirement ''*.txt'' 0 (Flag True)]
      [''a.txt'', ''out.txt'', ''b.csv'']) = [''b.csv'']"
proof -
  let ?t = "TextContentOutputFileRequirement ''out.txt'' 1 (Flag False) None None"
  let ?w = "DataOutputFileRequirement ''*.txt'' 0 (Flag True)"
  let ?res = "get_requirements_to_output_files_and_unmatched_files glob [?t, ?w]
      [''a.txt'', ''out.txt'', ''b.csv'']"
  have e: "?res = (fst ?res, snd ?res)" by simp
  note th = reconcile_first_match_wins [OF e]
  have m: "\<not> matches glob ?t ''a.txt''" "matches glob ?w ''a.txt''"
     "matches glob ?t ''out.txt''" "\<not> matches glob ?t ''b.csv''" "\<not> matches glob ?w ''b.csv''"
    by (simp_all add: matches_def)
  have i1: "(\<exists>i<length [?t, ?w]. [?t, ?w] ! i = ?w \<and> matches glob ?w f \<and>
              (\<forall>j<i. \<not> matches glob ([?t, ?w] ! j) f))
            \<longleftrightarrow> matches glob ?w f \<and> \<not> matches glob ?t f" for f
  proof
    assume "\<exists>i<length [?t, ?w]. [?t, ?w] ! i = ?w \<and> matches glob ?w f \<and>
              (\<forall>j<i. \<not> matches glob ([?t, ?w] ! j) f)"
    then obtain i where i: "i < length [?t, ?w]" "[?t, ?w] ! i = ?w" "matches glob ?w f"
      "\<forall>j<i. \<not> matches glob ([?t, ?w] ! j) f" by blast
    have "i \<noteq> 0" using i(2) by (cases i) auto
    then have "\<not> matches glob ([?t, ?w] ! 0) f" using i(4) by blast
    then show "matches glob ?w f \<and> \<not> matches glob ?t f" using i(3) by simp
  next
    assume a: "matches glob ?w f \<and> \<not> matches glob ?t f"
    have "\<forall>j<Suc 0. \<not> matches glob ([?t, ?w] ! j) f" using a by simp
    then have "Suc 0 < length [?t, ?w] \<and> [?t, ?w] ! Suc 0 = ?w \<and> matches glob ?w f \<and>
              (\<forall>j<Suc 0. \<not> matches glob ([?t, ?w] ! j) f)" using a by simp
    then show "\<exists>i<length [?t, ?w]. [?t, ?w] ! i = ?w \<and> matches glob ?w f \<and>
              (\<forall>j<i. \<not> matches glob ([?t, ?w] ! j) f)" by blast
  qed
  have "map_of (fst ?res) ?w = Some (filter (\<lambda>f. matches glob ?w f \<and> \<not> matches glob ?t f)
           [''a.txt'', ''out.txt'', ''b.csv''])"
    using th i1 by simp
  then have a: "map_of (fst ?res) ?w = Some [''a.txt'']" using m by simp
  have "snd ?res = filter (\<lambda>f. \<forall>r\<in>set [?t, ?w]. \<not> matches glob r f)
           [''a.txt'', ''out.txt'', ''b.csv'']"
    using th by blast
  then have b: "snd ?res = [''b.csv'']" using m by simp
  show ?thesis using a b by simp
qed


subsection \<open>Validation and rendering of a content\<close>

lemma strip_Nil_iff: "strip s = [] \<longleftrightarrow> (\<forall>c\<in>set s. isspace c)"
proof
  assume "strip s = []"
  then have all: "\<forall>c\<in>set (dropWhile isspace s). isspace c"
    by (simp add: strip_def rstrip_def lstrip_def dropWhile_eq_Nil_conv)
  have "dropWhile isspace s = []"
  proof (rule ccontr)
    assume ne: "dropWhile isspace s \<noteq> []"
    then have "\<not> isspace (hd (dropWhile isspace s))" by (rule hd_dropWhile)
    moreover have "hd (dropWhile isspace s) \<in> set (dropWhile isspace s)" using ne by simp
    ultimately show False using all by blast
  qed
  then show "\<forall>c\<in>set s. isspace c" by (rule dropWhile_eq_Nil_conv [THEN iffD1])
next
  assume "\<forall>c\<in>set s. isspace c"
  then have d: "dropWhile isspace s = []" by (rule dropWhile_eq_Nil_conv [THEN iffD2])
  show "strip s = []" unfolding strip_def rstrip_def lstrip_def d by simp
qed

text \<open>
  Claim C4. For a text-content requirement and any file content: when the content is
  empty after stripping whitespace, exactly one issue of severity
  \<open>OutputFileContentLevelA\<close> is produced; when a token budget is set and the token
  count of the content exceeds it, exactly one issue of severity
  \<open>OutputFileContentLevelC\<close> is produced and its text contains the preview of the
  content cut at the budget; a content that is not empty and is within the budget (or has
  no budget) produces no issue.
\<close>

theorem text_content_issues:
  "\<exists>issues. get_issues_for_output_file_content count_tokens extract
       (TextContentOutputFileRequirement f m k h max_tokens) file content = Inr issues \<and>
     (strip content = [] \<longrightarrow>
        length (filter (\<lambda>i. code_problem i = Some OutputFileContentLevelA) issues) = 1) \<and>
     (\<forall>mt. max_tokens = Some mt \<and> count_tokens content > mt \<longrightarrow>
        (\<exists>i. filter (\<lambda>i. code_problem i = Some OutputFileContentLevelC) issues = [i] \<and>
             Txt (extract content mt) \<in> set (issue i))) \<and>
     (strip content \<noteq> [] \<and> (\<forall>mt. max_tokens = Some mt \<longrightarrow> count_tokens content \<le> mt) \<longrightarrow>
        issues = [])"
  by (cases max_tokens) (simp_all add: empty_file_issue_def too_long_file_issue_def)

theorem text_content_issues_witness:
  "(\<exists>issues. get_issues_for_output_file_content count_chars take_chars
       (TextContentOutputFileRequirement ''out.txt'' 1 (Flag False) None (Some 3))
       ''out.txt'' '' '' = Inr issues \<and>
      length (filter (\<lambda>i. code_problem i = Some OutputFileContentLevelA) issues) = 1) \<and>
   (\<exists>issues. get_issues_for_output_file_content count_chars take_chars
       (TextContentOutputFileRequirement ''out.txt'' 1 (Flag False) None (Some 3))
       ''out.txt'' ''abcdef'' = Inr issues \<and>
      (\<exists>i. filter (\<lambda>i. code_problem i = Some OutputFileContentLevelC) issues = [i] \<and>
           Txt ''abc'' \<in> set (issue i))) \<and>
   (\<exists>issues. get_issues_for_output_file_content count_chars take_chars
       (TextContentOutputFileRequirement ''out.txt'' 1 (Flag False) None (Some 3))
       ''out.txt'' ''abc'' = Inr issues \<and> issues = [])"
proof -
  let ?req = "TextContentOutputFileRequirement ''out.txt'' 1 (Flag False) None (Some 3)"
  have s1: "strip '' '' = []" by (simp add: strip_Nil_iff isspace_def)
  have s2: "strip ''abc'' \<noteq> []" by (simp add: strip_Nil_iff isspace_def)
  have t1: "Some 3 = Some (3::int) \<and> count_chars ''abcdef'' > 3" by (simp add: count_chars_def)
  have t2: "\<forall>mt. Some (3::int) = Some mt \<longrightarrow> count_chars ''abc'' \<le> mt"
    by (simp add: count_chars_def)
  have e: "take_chars ''abcdef'' 3 = ''abc''" by (simp add: take_chars_def)
  have a: "\<exists>issues. get_issues_for_output_file_content count_chars take_chars ?req
       ''out.txt'' '' '' = Inr issues \<and>
      length (filter (\<lambda>i. code_problem i = Some OutputFileContentLevelA) issues) = 1"
    using text_content_issues [of count_chars take_chars "''out.txt''" 1 "Flag False" None
        "Some 3" "''out.txt''" "'' ''"] s1 by blast
  have b: "\<exists>issues. get_issues_for_output_file_content count_chars take_chars ?req
       ''out.txt'' ''abcdef'' = Inr issues \<and>
      (\<exists>i. filter (\<lambda>i. code_problem i = Some OutputFileContentLevelC) issues = [i] \<and>
           Txt ''abc'' \<in> set (issue i))"
    using text_content_issues [of count_chars take_chars "''out.txt''" 1 "Flag False" None
        "Some 3" "''out.txt''" "''abcdef''"] t1 e by metis
  have c: "\<exists>issues. get_issues_for_output_file_content count_chars take_chars ?req
       ''out.txt'' ''abc'' = Inr issues \<and> issues = []"
    using text_content_issues [of count_chars take_chars "''out.txt''" 1 "Flag False" None
        "Some 3" "''out.txt''" "''abc''"] s2 t2 by blast
  show ?thesis using a b c by blast
qed

text \<open>
  Claim C7, as stated, fails: a numeric text-content requirement is a subclass of the base
  content requirement, not of the text-content requirement, so its validation is the
  base one. On an empty file the text-content requirement reports the empty file and the
  numeric requirement reports nothing.
\<close>

theorem numeric_requirement_checks_counterexample:
  "get_issues_for_output_file_content count_chars take_chars
     (NumericTextContentOutputFileRequirement ''out.txt'' 1 NotImplemented None 4 10)
     ''out.txt'' [] = Inr [] \<and>
   get_issues_for_output_file_content count_chars take_chars
     (TextContentOutputFileRequirement ''out.txt'' 1 (Flag False) None (Some 3))
     ''out.txt'' [] = Inr [empty_file_issue ''out.txt'']"
  by (simp add: strip_Nil_iff count_chars_def)

text \<open>
  Claim C7, amended. For every numeric text-content requirement, rendering applies
  \<open>round_floats\<close> with the target and source precisions to the rendering of the base
  content requirement, and validation does not depend on the precisions: it returns no
  issue for any content, performing neither the non-empty nor the token-budget check.
\<close>

theorem numeric_requirement_rounds_when_rendering_only:
  "get_pretty_content round_floats
     (NumericTextContentOutputFileRequirement f m k h target_precision source_precision)
     content file
     = Inr (round_floats (base_get_pretty_content content file)
              target_precision source_precision) \<and>
   get_pretty_content round_floats (BaseContentOutputFileRequirement f m k h) content file
     = Inr (base_get_pretty_content content file) \<and>
   get_issues_for_output_file_content count_tokens extract
     (NumericTextContentOutputFileRequirement f m k h target_precision source_precision)
     file' content' = Inr [] \<and>
   get_issues_for_output_file_content count_tokens extract
     (NumericTextContentOutputFileRequirement f m k h target_precision source_precision)
     file' content'
     = get_issues_for_output_file_content count_tokens extract
         (NumericTextContentOutputFileRequirement f m k h target_precision' source_precision')
         file' content'"
  by simp


subsection \<open>Decoding and deleting the matched files\<close>


lemma reconcile_entries:
  "distinct (map fst (get_requirements_to_output_files fm self created))"
  "set (map fst (get_requirements_to_output_files fm self created)) = set self"
  "(r, files) \<in> set (get_requirements_to_output_files fm self created) \<Longrightarrow>
     files = filter (\<lambda>f. first_matching_requirement fm self f = Some r) created"
proof -
  let ?d0 = "empty_lists_dict self []"
  obtain d un where loop: "reconcile_loop fm self created (?d0, []) = (d, un)"
    by (cases "reconcile_loop fm self created (?d0, [])") auto
  have d: "get_requirements_to_output_files fm self created = d"
    using loop by (simp add: get_requirements_to_output_files_def
        get_requirements_to_output_files_and_unmatched_files_def)
  have keys0: "distinct (map fst ?d0)" "set (map fst ?d0) = set self"
    using empty_lists_dict_keys [of "[]" self] by simp_all
  note inv = reconcile_loop_invariant [OF loop]
  show k1: "distinct (map fst (get_requirements_to_output_files fm self created))"
    using inv keys0 d by simp
  show k2: "set (map fst (get_requirements_to_output_files fm self created)) = set self"
    using inv keys0 d by simp
  assume a: "(r, files) \<in> set (get_requirements_to_output_files fm self created)"
  then have "r \<in> set self" using k2 by force
  then have "map_of d r = Some (filter (\<lambda>f. first_matching_requirement fm self f = Some r) created)"
    using inv empty_lists_dict_lookup by simp
  moreover have "map_of d r = Some files" using a k1 d by simp
  ultimately show "files = filter (\<lambda>f. first_matching_requirement fm self f = Some r) created"
    by simp
qed

lemma map_of_dict_set: "map_of (dict_set k v d) = (map_of d)(k \<mapsto> v)"
  by (induction d) auto

lemma get_content_mono:
  "fs1 \<subseteq>\<^sub>m fs \<Longrightarrow> get_content pl r fs1 p = Inr c \<Longrightarrow> get_content pl r fs p = Inr c"
proof -
  assume le: "fs1 \<subseteq>\<^sub>m fs" and g: "get_content pl r fs1 p = Inr c"
  have eq: "fs1 p = Some b \<Longrightarrow> fs p = Some b" for b
    using le by (auto simp: map_le_def dom_def)
  show ?thesis
  proof (cases "fs1 p")
    case None
    then show ?thesis using g by (cases r) simp_all
  next
    case (Some b)
    then show ?thesis using g eq [OF Some] by (cases r) simp_all
  qed
qed

lemma get_content_and_delete_effect:
  assumes "get_content_and_delete_if_needed pl r fs p = Inr (c, fs1)"
  shows "get_content pl r fs p = Inr c"
    and "fs1 = (if truthy (should_keep_file r) then fs else fs(p := None))"
  using assms
  by (auto simp: get_content_and_delete_if_needed_def delete_if_needed_def
      split: sum.splits option.splits if_splits)

lemma files_to_contents_effect:
  "files_to_contents pl r rf files (d, fs) = Inr (d', fs') \<Longrightarrow>
   fs' \<subseteq>\<^sub>m fs \<and>
   (\<forall>p. fs' p = (if \<not> truthy (should_keep_file r) \<and> p \<in> file_path rf ` set files
                  then None else fs p)) \<and>
   (\<forall>f. f \<notin> set files \<longrightarrow> map_of d' f = map_of d f) \<and>
   (\<forall>f\<in>set files. \<exists>c. map_of d' f = Some c \<and> get_content pl r fs (file_path rf f) = Inr c)"
proof (induction files arbitrary: d fs)
  case Nil
  then show ?case by simp
next
  case (Cons f files)
  from Cons.prems obtain c fs1 where
    step: "get_content_and_delete_if_needed pl r fs (file_path rf f) = Inr (c, fs1)" and
    rest: "files_to_contents pl r rf files (dict_set f c d, fs1) = Inr (d', fs')"
    by (auto split: sum.splits)
  note e = get_content_and_delete_effect [OF step]
  note ih = Cons.IH [OF rest]
  have le1: "fs1 \<subseteq>\<^sub>m fs" using e(2) by (auto simp: map_le_def)
  have le: "fs' \<subseteq>\<^sub>m fs" using ih le1 map_le_trans by blast
  have fsp: "\<forall>p. fs' p = (if \<not> truthy (should_keep_file r) \<and> p \<in> file_path rf ` set (f # files)
                  then None else fs p)"
    using ih e(2) by auto
  have keep: "\<forall>g. g \<notin> set (f # files) \<longrightarrow> map_of d' g = map_of d g"
    using ih by (auto simp: map_of_dict_set)
  have cont: "\<forall>g\<in>set (f # files). \<exists>c. map_of d' g = Some c \<and>
       get_content pl r fs (file_path rf g) = Inr c"
  proof
    fix g assume g: "g \<in> set (f # files)"
    show "\<exists>c. map_of d' g = Some c \<and> get_content pl r fs (file_path rf g) = Inr c"
    proof (cases "g \<in> set files")
      case True
      then obtain c' where "map_of d' g = Some c'" "get_content pl r fs1 (file_path rf g) = Inr c'"
        using ih by blast
      then show ?thesis using get_content_mono [OF le1] by blast
    next
      case False
      then have "g = f" using g by simp
      moreover have "map_of d' f = map_of (dict_set f c d) f" using ih False \<open>g = f\<close> by blast
      ultimately show ?thesis using e(1) by (simp add: map_of_dict_set)
    qed
  qed
  show ?case using le fsp keep cont by blast
qed

lemma requirements_to_contents_effect:
  "requirements_to_contents pl rf items (d, fs) = Inr (d', fs') \<Longrightarrow>
   distinct (map fst items) \<Longrightarrow>
   fs' \<subseteq>\<^sub>m fs \<and>
   (\<forall>p. fs' p = (if \<exists>r files. (r, files) \<in> set items \<and> \<not> truthy (should_keep_file r) \<and>
                       p \<in> file_path rf ` set files
                  then None else fs p)) \<and>
   (\<forall>r. r \<notin> set (map fst items) \<longrightarrow> map_of d' r = map_of d r) \<and>
   (\<forall>r files. (r, files) \<in> set items \<longrightarrow>
      (\<exists>inner. map_of d' r = Some inner \<and>
         (\<forall>f\<in>set files. \<exists>c. map_of inner f = Some c \<and>
              get_content pl r fs (file_path rf f) = Inr c)))"
proof (induction items arbitrary: d fs)
  case Nil
  then show ?case by simp
next
  case (Cons it items)
  obtain r0 files0 where it: "it = (r0, files0)" by (cases it)
  from Cons.prems(1) obtain inner fs1 where
    step: "files_to_contents pl r0 rf files0 ([], fs) = Inr (inner, fs1)" and
    rest: "requirements_to_contents pl rf items (dict_set r0 inner d, fs1) = Inr (d', fs')"
    by (auto simp: it split: sum.splits)
  have dist: "distinct (map fst items)" "r0 \<notin> set (map fst items)"
    using Cons.prems(2) it by simp_all
  note e = files_to_contents_effect [OF step]
  note ih = Cons.IH [OF rest dist(1)]
  have le1: "fs1 \<subseteq>\<^sub>m fs" using e by blast
  have le: "fs' \<subseteq>\<^sub>m fs" using ih le1 map_le_trans by blast
  have fsp: "\<forall>p. fs' p = (if \<exists>r files. (r, files) \<in> set (it # items) \<and>
                       \<not> truthy (should_keep_file r) \<and> p \<in> file_path rf ` set files
                  then None else fs p)"
  proof
    fix p
    have a: "fs' p = (if \<exists>r files. (r, files) \<in> set items \<and> \<not> truthy (should_keep_file r) \<and>
                       p \<in> file_path rf ` set files then None else fs1 p)"
      using ih by blast
    have b: "fs1 p = (if \<not> truthy (should_keep_file r0) \<and> p \<in> file_path rf ` set files0
                  then None else fs p)"
      using e by blast
    show "fs' p = (if \<exists>r files. (r, files) \<in> set (it # items) \<and>
                       \<not> truthy (should_keep_file r) \<and> p \<in> file_path rf ` set files
                  then None else fs p)"
    proof -
      have c: "(\<exists>r files. (r, files) \<in> set (it # items) \<and>
                  \<not> truthy (should_keep_file r) \<and> p \<in> file_path rf ` set files)
            \<longleftrightarrow> (\<not> truthy (should_keep_file r0) \<and> p \<in> file_path rf ` set files0) \<or>
               (\<exists>r files. (r, files) \<in> set items \<and> \<not> truthy (should_keep_file r) \<and>
                       p \<in> file_path rf ` set files)"
        unfolding it by (simp only: set_simps insert_iff prod.inject) blast
      show ?thesis unfolding c a b by (simp split: if_splits) blast
    qed
  qed
  have keep: "\<forall>r. r \<notin> set (map fst (it # items)) \<longrightarrow> map_of d' r = map_of d r"
    using ih it by (auto simp: map_of_dict_set)
  have cont: "\<forall>r files. (r, files) \<in> set (it # items) \<longrightarrow>
      (\<exists>inner. map_of d' r = Some inner \<and>
         (\<forall>f\<in>set files. \<exists>c. map_of inner f = Some c \<and>
              get_content pl r fs (file_path rf f) = Inr c))"
  proof (intro allI impI)
    fix r files assume m: "(r, files) \<in> set (it # items)"
    show "\<exists>inner. map_of d' r = Some inner \<and>
         (\<forall>f\<in>set files. \<exists>c. map_of inner f = Some c \<and>
              get_content pl r fs (file_path rf f) = Inr c)"
    proof (cases "(r, files) \<in> set items")
      case True
      then obtain inner' where i: "map_of d' r = Some inner'"
        "\<forall>f\<in>set files. \<exists>c. map_of inner' f = Some c \<and>
              get_content pl r fs1 (file_path rf f) = Inr c"
        using ih by blast
      have "\<forall>f\<in>set files. \<exists>c. map_of inner' f = Some c \<and>
              get_content pl r fs (file_path rf f) = Inr c"
        using i(2) get_content_mono [OF le1] by blast
      then show ?thesis using i(1) by blast
    next
      case False
      then have eq: "r = r0" "files = files0" using m it by simp_all
      have "map_of d' r0 = map_of (dict_set r0 inner d) r0" using ih dist(2) by blast
      then have "map_of d' r0 = Some inner" by (simp add: map_of_dict_set)
      moreover have "\<forall>f\<in>set files0. \<exists>c. map_of inner f = Some c \<and>
              get_content pl r0 fs (file_path rf f) = Inr c" using e by blast
      ultimately show ?thesis using eq by blast
    qed
  qed
  show ?case using le fsp keep cont by blast
qed

lemma file_path_inj: "file_path rf f = file_path rf g \<Longrightarrow> f = g"
  by (cases rf) (simp_all add: file_path_def)


lemma get_content_and_delete_succeeds:
  assumes "fs p = Some b" "decodable pl r b"
  shows "\<exists>c. get_content_and_delete_if_needed pl r fs p =
           Inr (c, if truthy (should_keep_file r) then fs else fs(p := None))"
  using assms
  by (cases r)
     (auto simp: get_content_and_delete_if_needed_def delete_if_needed_def split: sum.splits)

lemma files_to_contents_succeeds:
  "\<forall>f\<in>set files. \<exists>b. fs (file_path rf f) = Some b \<and> decodable pl r b \<Longrightarrow>
   distinct files \<Longrightarrow>
   \<exists>d' fs'. files_to_contents pl r rf files (d, fs) = Inr (d', fs')"
proof (induction files arbitrary: d fs)
  case Nil
  then show ?case by simp
next
  case (Cons f files)
  let ?fs1 = "if truthy (should_keep_file r) then fs else fs(file_path rf f := None)"
  obtain b where b: "fs (file_path rf f) = Some b" "decodable pl r b"
    using Cons.prems(1) by auto
  obtain c where step: "get_content_and_delete_if_needed pl r fs (file_path rf f) = Inr (c, ?fs1)"
    using get_content_and_delete_succeeds [of fs "file_path rf f" b pl r] b by blast
  have "\<forall>g\<in>set files. \<exists>b. ?fs1 (file_path rf g) = Some b \<and> decodable pl r b"
  proof
    fix g assume g: "g \<in> set files"
    then have "g \<noteq> f" using Cons.prems(2) by auto
    then have "file_path rf g \<noteq> file_path rf f" using file_path_inj by blast
    then have "?fs1 (file_path rf g) = fs (file_path rf g)" by simp
    then show "\<exists>b. ?fs1 (file_path rf g) = Some b \<and> decodable pl r b"
      using Cons.prems(1) g by simp
  qed
  moreover have "distinct files" using Cons.prems(2) by simp
  ultimately obtain d' fs' where
    "files_to_contents pl r rf files (dict_set f c d, ?fs1) = Inr (d', fs')"
    using Cons.IH by blast
  then show ?case using step by simp
qed

lemma requirements_to_contents_succeeds:
  "\<forall>r files. (r, files) \<in> set items \<longrightarrow>
      (\<forall>f\<in>set files. \<exists>b. fs (file_path rf f) = Some b \<and> decodable pl r b) \<Longrightarrow>
   distinct (concat (map snd items)) \<Longrightarrow>
   \<exists>d' fs'. requirements_to_contents pl rf items (d, fs) = Inr (d', fs')"
proof (induction items arbitrary: d fs)
  case Nil
  then show ?case by simp
next
  case (Cons it items)
  obtain r0 files0 where it: "it = (r0, files0)" by (cases it)
  have d0: "distinct files0" and dr: "distinct (concat (map snd items))"
    and disj: "set files0 \<inter> set (concat (map snd items)) = {}"
    using Cons.prems(2) it by simp_all
  have "\<forall>f\<in>set files0. \<exists>b. fs (file_path rf f) = Some b \<and> decodable pl r0 b"
    using Cons.prems(1) it by simp
  then obtain inner fs1 where
    step: "files_to_contents pl r0 rf files0 ([], fs) = Inr (inner, fs1)"
    using files_to_contents_succeeds [OF _ d0] by blast
  note e = files_to_contents_effect [OF step]
  have "\<forall>r files. (r, files) \<in> set items \<longrightarrow>
      (\<forall>f\<in>set files. \<exists>b. fs1 (file_path rf f) = Some b \<and> decodable pl r b)"
  proof (intro allI impI ballI)
    fix r files f assume m: "(r, files) \<in> set items" and f: "f \<in> set files"
    have "f \<in> set (concat (map snd items))" using m f by force
    then have "f \<notin> set files0" using disj by blast
    then have "file_path rf f \<notin> file_path rf ` set files0" using file_path_inj by blast
    then have "fs1 (file_path rf f) = fs (file_path rf f)" using e by simp
    moreover have "\<exists>b. fs (file_path rf f) = Some b \<and> decodable pl r b"
      using Cons.prems(1) m f by (auto simp: it)
    ultimately show "\<exists>b. fs1 (file_path rf f) = Some b \<and> decodable pl r b" by simp
  qed
  from Cons.IH [OF this dr] obtain d' fs' where
    "requirements_to_contents pl rf items (dict_set r0 inner d, fs1) = Inr (d', fs')" by blast
  then show ?case using step it by simp
qed

lemma distinct_if_count_le_1: "(\<And>a. count (mset xs) a \<le> 1) \<Longrightarrow> distinct xs"
proof (induction xs)
  case Nil
  then show ?case by simp
next
  case (Cons x xs)
  have "count (mset (x # xs)) x \<le> 1" by (rule Cons.prems)
  then have "count (mset xs) x = 0" by simp
  then have nx: "x \<notin> set xs" by (simp add: count_mset_0_iff)
  have "count (mset xs) a \<le> 1" for a
  proof -
    have "count (mset xs) a \<le> count (mset (x # xs)) a" by simp
    also have "\<dots> \<le> 1" by (rule Cons.prems)
    finally show ?thesis .
  qed
  then have "distinct xs" by (rule Cons.IH)
  then show ?case using nx by simp
qed

lemma distinct_mset_subset:
  assumes "mset xs \<subseteq># mset ys" "distinct ys"
  shows "distinct xs"
proof (rule distinct_if_count_le_1)
  fix a
  have "count (mset xs) a \<le> count (mset ys) a"
    using assms(1) by (simp add: mset_subset_eq_count)
  also have "\<dots> \<le> 1"
    using assms(2) by (simp add: distinct_count_atmost_1)
  finally show "count (mset xs) a \<le> 1" .
qed

lemma reconcile_files_distinct:
  assumes "distinct created"
  shows "distinct (concat (map snd (get_requirements_to_output_files fm self created)))"
proof -
  let ?d0 = "empty_lists_dict self []"
  obtain d un where loop: "reconcile_loop fm self created (?d0, []) = (d, un)"
    by (cases "reconcile_loop fm self created (?d0, [])") auto
  have d: "get_requirements_to_output_files fm self created = d"
    using loop by (simp add: get_requirements_to_output_files_def
        get_requirements_to_output_files_and_unmatched_files_def)
  have keys0: "set self \<subseteq> set (map fst ?d0)"
    using empty_lists_dict_keys [of "[]" self] by simp
  have values0: "concat (map snd ?d0) = []"
    using empty_lists_dict_values [of "[]" self] by simp
  have "mset (concat (map snd d)) + mset un = mset (concat (map snd ?d0)) + mset [] + mset created"
    by (rule reconcile_loop_mset [OF loop keys0])
  then have "mset (concat (map snd d)) + mset un = mset created"
    unfolding values0 by simp
  then have "mset (concat (map snd d)) \<subseteq># mset created"
    using mset_subset_eq_add_left [of "mset (concat (map snd d))" "mset un"] by simp
  then show ?thesis unfolding d using assms by (rule distinct_mset_subset)
qed


text \<open>
  Claim C8. Converting the requirements to the with-content mapping succeeds when the
  created files are distinct and every matched file is on disk and can be decoded. When
  it succeeds, for every file matched to a requirement: the mapping holds, under the
  requirement and the file name, the content that the requirement's decoder reads from
  the file as it was before the conversion (so the file was decoded before any removal),
  and afterwards the file is absent from disk if the requirement's retain flag is not
  set and is on disk unchanged if it is set; paths of no matched file are unchanged.
\<close>

theorem convert_decodes_then_deletes_unless_retained:
  "(distinct created_files \<and>
    (\<forall>r files f. (r, files) \<in> set (get_requirements_to_output_files fm self (sort created_files))
         \<and> f \<in> set files \<longrightarrow>
         (\<exists>bytes. fs (file_path run_folder f) = Some bytes \<and> decodable pickle_load r bytes))
    \<longrightarrow> (\<exists>with_content fs'.
          convert_to_output_file_requirements_with_content fm pickle_load self created_files
            run_folder fs = Inr (with_content, fs'))) \<and>
   (\<forall>with_content fs'.
      convert_to_output_file_requirements_with_content fm pickle_load self created_files
        run_folder fs = Inr (with_content, fs') \<longrightarrow>
      (\<forall>r files f. (r, files) \<in> set (get_requirements_to_output_files fm self (sort created_files))
           \<and> f \<in> set files \<longrightarrow>
           (\<exists>c inner. get_content pickle_load r fs (file_path run_folder f) = Inr c \<and>
                map_of with_content r = Some inner \<and> map_of inner f = Some c) \<and>
           fs' (file_path run_folder f) =
             (if truthy (should_keep_file r) then fs (file_path run_folder f) else None)) \<and>
      (\<forall>p. (\<forall>r files f. (r, files) \<in> set (get_requirements_to_output_files fm self
                  (sort created_files)) \<and> f \<in> set files \<longrightarrow> p \<noteq> file_path run_folder f)
           \<longrightarrow> fs' p = fs p))"
proof (intro conjI impI allI)
  let ?items = "get_requirements_to_output_files fm self (sort created_files)"
  assume a: "distinct created_files \<and>
    (\<forall>r files f. (r, files) \<in> set ?items \<and> f \<in> set files \<longrightarrow>
         (\<exists>bytes. fs (file_path run_folder f) = Some bytes \<and> decodable pickle_load r bytes))"
  have "distinct (sort created_files)" using a by simp
  then have d: "distinct (concat (map snd ?items))" by (rule reconcile_files_distinct)
  have "\<forall>r files. (r, files) \<in> set ?items \<longrightarrow>
      (\<forall>f\<in>set files. \<exists>b. fs (file_path run_folder f) = Some b \<and> decodable pickle_load r b)"
    using a by blast
  from requirements_to_contents_succeeds [OF this d]
  show "\<exists>with_content fs'.
          convert_to_output_file_requirements_with_content fm pickle_load self created_files
            run_folder fs = Inr (with_content, fs')"
    by (simp add: convert_to_output_file_requirements_with_content_def)
next
  let ?items = "get_requirements_to_output_files fm self (sort created_files)"
  fix with_content fs'
  assume ok: "convert_to_output_file_requirements_with_content fm pickle_load self created_files
        run_folder fs = Inr (with_content, fs')"
  then have run: "requirements_to_contents pickle_load run_folder ?items ([], fs)
      = Inr (with_content, fs')"
    by (simp add: convert_to_output_file_requirements_with_content_def)
  note eff = requirements_to_contents_effect [OF run reconcile_entries(1)]
  have fsp: "fs' p = (if \<exists>r files. (r, files) \<in> set ?items \<and> \<not> truthy (should_keep_file r) \<and>
                       p \<in> file_path run_folder ` set files then None else fs p)" for p
    using eff by blast
  {
    fix r files f
    assume m: "(r, files) \<in> set ?items \<and> f \<in> set files"
    obtain inner where inner: "map_of with_content r = Some inner"
      "\<forall>f\<in>set files. \<exists>c. map_of inner f = Some c \<and>
          get_content pickle_load r fs (file_path run_folder f) = Inr c"
      using eff m by blast
    then obtain c where "map_of inner f = Some c"
      "get_content pickle_load r fs (file_path run_folder f) = Inr c" using m by blast
    then show "\<exists>c inner. get_content pickle_load r fs (file_path run_folder f) = Inr c \<and>
                map_of with_content r = Some inner \<and> map_of inner f = Some c"
      using inner(1) by blast
    show "fs' (file_path run_folder f) =
             (if truthy (should_keep_file r) then fs (file_path run_folder f) else None)"
    proof (cases "truthy (should_keep_file r)")
      case False
      then have "\<exists>r files. (r, files) \<in> set ?items \<and> \<not> truthy (should_keep_file r) \<and>
          file_path run_folder f \<in> file_path run_folder ` set files" using m by blast
      then have "fs' (file_path run_folder f) = None"
        by (subst fsp) (rule if_P)
      then show ?thesis using False by simp
    next
      case True
      have "\<not> (\<exists>r' files'. (r', files') \<in> set ?items \<and> \<not> truthy (should_keep_file r') \<and>
          file_path run_folder f \<in> file_path run_folder ` set files')"
      proof
        assume "\<exists>r' files'. (r', files') \<in> set ?items \<and> \<not> truthy (should_keep_file r') \<and>
          file_path run_folder f \<in> file_path run_folder ` set files'"
        then obtain r' files' where o: "(r', files') \<in> set ?items"
          "\<not> truthy (should_keep_file r')"
          "file_path run_folder f \<in> file_path run_folder ` set files'" by blast
        then have "f \<in> set files'" using file_path_inj by blast
        then have "first_matching_requirement fm self f = Some r'"
          using reconcile_entries(3) [OF o(1)] by simp
        moreover have "first_matching_requirement fm self f = Some r"
          using reconcile_entries(3) [of r files fm self "sort created_files"] m by simp
        ultimately show False using True o(2) by simp
      qed
      then have "fs' (file_path run_folder f) = fs (file_path run_folder f)"
        by (subst fsp) (rule if_not_P)
      then show ?thesis using True by simp
    qed
  }
  fix p
  assume "\<forall>r files f. (r, files) \<in> set ?items \<and> f \<in> set files \<longrightarrow> p \<noteq> file_path run_folder f"
  then have "\<not> (\<exists>r files. (r, files) \<in> set ?items \<and> \<not> truthy (should_keep_file r) \<and>
                       p \<in> file_path run_folder ` set files)" by blast
  then show "fs' p = fs p" by (subst fsp) (rule if_not_P)
qed

theorem convert_decodes_then_deletes_unless_retained_witness:
  "\<exists>with_content fs' inner.
     convert_to_output_file_requirements_with_content glob load_bytes
       [TextContentOutputFileRequirement ''out.txt'' 1 (Flag False) None None,
        DataOutputFileRequirement ''*.csv'' 0 (Flag True)]
       [''out.txt'', ''data.csv''] None
       [''out.txt'' \<mapsto> ''hello'', ''data.csv'' \<mapsto> ''1,2'']
       = Inr (with_content, fs') \<and>
     map_of with_content (TextContentOutputFileRequirement ''out.txt'' 1 (Flag False) None None)
       = Some inner \<and>
     map_of inner ''out.txt'' = Some (TextContent ''hello'') \<and>
     fs' ''out.txt'' = None \<and> fs' ''data.csv'' = Some ''1,2''"
proof -
  let ?t = "TextContentOutputFileRequirement ''out.txt'' 1 (Flag False) None None"
  let ?w = "DataOutputFileRequirement ''*.csv'' 0 (Flag True)"
  let ?fs = "[''out.txt'' \<mapsto> ''hello'', ''data.csv'' \<mapsto> ''1,2'']"
  let ?created = "[''out.txt'', ''data.csv'']"
  have srt: "sort ?created = [''data.csv'', ''out.txt'']" by simp
  have items: "get_requirements_to_output_files glob [?t, ?w] (sort ?created)
      = [(?t, [''out.txt'']), (?w, [''data.csv''])]"
    unfolding srt
    by (simp add: get_requirements_to_output_files_def
        get_requirements_to_output_files_and_unmatched_files_def matches_def)
  note th = convert_decodes_then_deletes_unless_retained
      [of ?created glob "[?t, ?w]" ?fs None load_bytes]
  have pre: "distinct ?created \<and>
    (\<forall>r files f. (r, files) \<in> set (get_requirements_to_output_files glob [?t, ?w] (sort ?created))
         \<and> f \<in> set files \<longrightarrow>
         (\<exists>bytes. ?fs (file_path None f) = Some bytes \<and> decodable load_bytes r bytes))"
    unfolding items by (auto simp: file_path_def)
  from th [THEN conjunct1, rule_format, OF pre] obtain with_content fs' where
    ok: "convert_to_output_file_requirements_with_content glob load_bytes [?t, ?w] ?created
           None ?fs = Inr (with_content, fs')" by blast
  note post = th [THEN conjunct2, rule_format, OF ok]
  have mt: "(?t, [''out.txt'']) \<in> set (get_requirements_to_output_files glob [?t, ?w]
      (sort ?created)) \<and> ''out.txt'' \<in> set [''out.txt'']"
    unfolding items by simp
  have mw: "(?w, [''data.csv'']) \<in> set (get_requirements_to_output_files glob [?t, ?w]
      (sort ?created)) \<and> ''data.csv'' \<in> set [''data.csv'']"
    unfolding items by simp
  from post [THEN conjunct1, rule_format, OF mt]
  obtain c inner where ci: "get_content load_bytes ?t ?fs (file_path None ''out.txt'') = Inr c"
    "map_of with_content ?t = Some inner" "map_of inner ''out.txt'' = Some c"
    and del: "fs' (file_path None ''out.txt'') =
      (if truthy (should_keep_file ?t) then ?fs (file_path None ''out.txt'') else None)"
    by blast
  have c: "c = TextContent ''hello''" using ci(1) by (simp add: file_path_def)
  from post [THEN conjunct1, rule_format, OF mw]
  have kept: "fs' (file_path None ''data.csv'') =
      (if truthy (should_keep_file ?w) then ?fs (file_path None ''data.csv'') else None)"
    by blast
  have "fs' ''out.txt'' = None" using del by (simp add: file_path_def)
  moreover have "fs' ''data.csv'' = Some ''1,2''" using kept by (simp add: file_path_def)
  ultimately show ?thesis using ok ci(2,3) c by blast
qed

section \<open>Properties of the code runner\<close>

lemma find_first_Some: "find_first sub s = Some (a, b) \<Longrightarrow> s = a @ sub @ b"
proof (induction s arbitrary: a)
  case Nil
  then show ?case by (auto split: if_splits)
next
  case (Cons c cs)
  show ?case
  proof (cases "prefix sub (c # cs)")
    case True
    then obtain r where r: "c # cs = sub @ r" by (auto simp: prefix_def)
    have "a = []" "b = drop (length sub) (c # cs)" using Cons.prems True by simp_all
    then show ?thesis unfolding r by simp
  next
    case False
    then obtain a' where "find_first sub cs = Some (a', b)" "a = c # a'"
      using Cons.prems by auto
    then show ?thesis using Cons.IH by simp
  qed
qed

lemma fence_unfold: "fence = [CHR ''`'', CHR ''`'', CHR ''`'']"
  by (simp add: fence_def)

lemma prefix_append_sep:
  assumes "c \<notin> set sub"
  shows "prefix sub (xs @ c # ys) \<longleftrightarrow> prefix sub xs"
proof
  assume "prefix sub (xs @ c # ys)"
  then have "prefix sub xs \<or> (\<exists>us. sub = xs @ us \<and> prefix us (c # ys))"
    by (simp add: prefix_append)
  then show "prefix sub xs"
  proof
    assume "prefix sub xs"
    then show ?thesis .
  next
    assume "\<exists>us. sub = xs @ us \<and> prefix us (c # ys)"
    then obtain us where us: "sub = xs @ us" "prefix us (c # ys)" by blast
    show ?thesis
    proof (cases us)
      case Nil
      then show ?thesis using us(1) by simp
    next
      case (Cons u us')
      then have "u = c" using us(2) by simp
      then have "c \<in> set sub" using us(1) Cons by simp
      then show ?thesis using assms by simp
    qed
  qed
next
  assume "prefix sub xs"
  then show "prefix sub (xs @ c # ys)" by (rule prefix_prefix)
qed

lemma drop_append_le: "n \<le> length A \<Longrightarrow> drop n (A @ B) = drop n A @ B"
  by simp

lemma prefix_append_long:
  assumes "length sub \<le> length A" "prefix sub (A @ B)"
  shows "prefix sub A"
proof -
  from assms(2) have "prefix sub A \<or> (\<exists>us. sub = A @ us \<and> prefix us B)"
    by (simp add: prefix_append)
  then show ?thesis
  proof
    assume "prefix sub A"
    then show ?thesis .
  next
    assume "\<exists>us. sub = A @ us \<and> prefix us B"
    then obtain us where us: "sub = A @ us" by blast
    then have "us = []" using assms(1) by simp
    then show ?thesis using us by simp
  qed
qed

lemma bt_notin_if_neq: "c \<noteq> CHR ''`'' \<Longrightarrow> c \<notin> set fence"
  by (simp add: fence_def)

lemma not_prefix_fence_sep:
  "c \<noteq> CHR ''`'' \<Longrightarrow> \<not> sublist fence xs \<Longrightarrow> \<not> prefix fence (xs @ c # ys)"
  using prefix_append_sep [OF bt_notin_if_neq] prefix_imp_sublist by blast

lemma not_sublist_Cons: "\<not> sublist sub (c # s) \<Longrightarrow> \<not> sublist sub s"
  by (simp add: sublist_Cons_right)

lemma str_count_zero: "sub \<noteq> [] \<Longrightarrow> \<not> sublist sub s \<Longrightarrow> str_count sub s = 0"
proof (induction s)
  case Nil
  then show ?case by simp
next
  case (Cons c s)
  have np: "\<not> prefix sub (c # s)" using Cons.prems(2) prefix_imp_sublist by blast
  have "\<not> sublist sub s" using Cons.prems(2) by (rule not_sublist_Cons)
  then have z: "str_count sub s = 0" using Cons.prems(1) by (intro Cons.IH)
  have "str_count sub (c # s) = str_count sub s"
    using np Cons.prems(1) by (subst str_count.simps) simp
  then show ?case using z by simp
qed

lemma str_count_sep:
  "sub \<noteq> [] \<Longrightarrow> c \<notin> set sub \<Longrightarrow>
   str_count sub (xs @ c # ys) = str_count sub xs + str_count sub ys"
proof (induction sub xs rule: str_count.induct)
  case (1 sub)
  obtain s0 sub' where sub: "sub = s0 # sub'" using 1(1) by (cases sub) auto
  have "s0 \<noteq> c" using 1(2) sub by auto
  then have "\<not> prefix sub (c # ys)" using sub by simp
  then show ?case using 1(1) by simp
next
  case (2 sub x xs)
  note ne = \<open>sub \<noteq> []\<close> and notin = \<open>c \<notin> set sub\<close>
  show ?case
  proof (cases "prefix sub (x # xs)")
    case True
    then have p: "prefix sub (x # (xs @ c # ys))"
      using prefix_prefix [of sub "x # xs" "c # ys"] by simp
    have len: "length sub \<le> length (x # xs)" using True by (rule prefix_length_le)
    have d: "drop (length sub) (x # (xs @ c # ys)) = drop (length sub) (x # xs) @ c # ys"
      using drop_append_le [OF len, of "c # ys"] by simp
    have ih: "str_count sub (drop (length sub) (x # xs) @ c # ys)
        = str_count sub (drop (length sub) (x # xs)) + str_count sub ys"
      using "2.IH"(1) [OF ne True ne notin] .
    have l: "str_count sub (x # (xs @ c # ys))
        = 1 + str_count sub (drop (length sub) (x # (xs @ c # ys)))"
      using p ne by (subst str_count.simps) simp
    have r: "str_count sub (x # xs) = 1 + str_count sub (drop (length sub) (x # xs))"
      using True ne by (subst str_count.simps) simp
    show ?thesis using l r ih unfolding d by simp
  next
    case False
    then have np: "\<not> prefix sub (x # (xs @ c # ys))"
      using prefix_append_sep [OF notin, of "x # xs" ys] by simp
    have ih: "str_count sub (xs @ c # ys) = str_count sub xs + str_count sub ys"
      using "2.IH"(2) [OF ne False ne notin] .
    have l: "str_count sub (x # (xs @ c # ys)) = str_count sub (xs @ c # ys)"
      using np ne by (subst str_count.simps) simp
    have r: "str_count sub (x # xs) = str_count sub xs"
      using False ne by (subst str_count.simps) simp
    show ?thesis using l r ih by simp
  qed
qed

lemma short_not_sublist: "length s < length sub \<Longrightarrow> \<not> sublist sub s"
  by (auto simp: sublist_def)

lemma str_count_pre_fence: "\<not> sublist fence pre \<Longrightarrow> str_count fence (pre @ fence) = 1"
proof (induction pre)
  case Nil
  have "str_count fence fence = 1" unfolding fence_unfold by simp
  then show ?case by simp
next
  case (Cons c pre)
  have "\<not> sublist fence pre" using Cons.prems by (rule not_sublist_Cons)
  then have ih: "str_count fence (pre @ fence) = 1" by (rule Cons.IH)
  have ne: "fence \<noteq> []" by (simp add: fence_def)
  show ?case
  proof (cases "prefix fence (c # (pre @ fence))")
    case False
    have "str_count fence (c # (pre @ fence)) = str_count fence (pre @ fence)"
      using False ne by (subst str_count.simps) simp
    then show ?thesis using ih by simp
  next
    case True
    have np: "\<not> prefix fence (c # pre)" using Cons.prems prefix_imp_sublist by blast
    have "\<not> length fence \<le> length (c # pre)"
    proof
      assume "length fence \<le> length (c # pre)"
      moreover have "prefix fence ((c # pre) @ fence)" using True by simp
      ultimately have "prefix fence (c # pre)" by (rule prefix_append_long)
      then show False using np by simp
    qed
    then have "length (c # pre) < 3" by (simp add: fence_def)
    then have "length (drop (length fence) (c # (pre @ fence))) < length fence"
      by (simp add: fence_def)
    then have "\<not> sublist fence (drop (length fence) (c # (pre @ fence)))"
      by (rule short_not_sublist)
    then have z: "str_count fence (drop (length fence) (c # (pre @ fence))) = 0"
      using ne by (intro str_count_zero)
    have "str_count fence (c # (pre @ fence))
        = 1 + str_count fence (drop (length fence) (c # (pre @ fence)))"
      using True ne by (subst str_count.simps) simp
    then show ?thesis using z by simp
  qed
qed

lemma str_count_fence_post: "\<not> sublist fence post \<Longrightarrow> str_count fence (fence @ post) = 1"
proof -
  assume "\<not> sublist fence post"
  then have "str_count fence post = 0" by (intro str_count_zero) (simp_all add: fence_def)
  then show ?thesis unfolding fence_unfold by simp
qed

lemma not_sublist_fence_tag:
  "CHR ''`'' \<notin> set w \<Longrightarrow> \<not> sublist fence body \<Longrightarrow> \<not> sublist fence (w @ body)"
proof (induction w)
  case Nil
  then show ?case by simp
next
  case (Cons c w)
  have "\<not> prefix fence (c # w @ body)" using Cons.prems(1) by (auto simp: fence_def)
  then show ?case using Cons by (simp add: sublist_Cons_right)
qed


lemma findall_skip: "\<not> prefix opener (c # cs) \<Longrightarrow> findall opener (c # cs) = findall opener cs"
  by (subst findall.simps) simp

lemma close_unfold: "CODE_CLOSE = CHR ''\<newline>'' # fence"
  by (simp add: CODE_CLOSE_def fence_def)

lemma sublist_close_fence: "sublist CODE_CLOSE s \<Longrightarrow> sublist fence s"
proof -
  assume "sublist CODE_CLOSE s"
  then obtain ps ss where "s = ps @ CODE_CLOSE @ ss" by (auto simp: sublist_def)
  then have "s = (ps @ [CHR ''\<newline>'']) @ fence @ ss" by (simp add: close_unfold)
  then show ?thesis unfolding sublist_def by blast
qed

lemma findall_no_close: "\<not> sublist CODE_CLOSE s \<Longrightarrow> findall opener s = []"
proof (induction s)
  case Nil
  then show ?case by simp
next
  case (Cons c s)
  have "\<not> sublist CODE_CLOSE s" using Cons.prems by (rule not_sublist_Cons)
  then have ih: "findall opener s = []" by (rule Cons.IH)
  have none: "find_first CODE_CLOSE (drop (length opener) (c # s)) = None"
  proof (cases "find_first CODE_CLOSE (drop (length opener) (c # s))")
    case None
    then show ?thesis .
  next
    case (Some ab)
    obtain a b where "ab = (a, b)" by (cases ab)
    then have "drop (length opener) (c # s) = a @ CODE_CLOSE @ b"
      using Some find_first_Some by blast
    then have "c # s = (take (length opener) (c # s) @ a) @ CODE_CLOSE @ b"
      by (metis append_assoc append_take_drop_id)
    then have "sublist CODE_CLOSE (c # s)" unfolding sublist_def by blast
    then show ?thesis using Cons.prems by simp
  qed
  show ?case using none ih by (subst findall.simps) simp
qed

lemma find_first_close:
  "\<not> sublist fence body \<Longrightarrow>
   find_first CODE_CLOSE (body @ CODE_CLOSE @ post) = Some (body, post)"
proof (induction body)
  case Nil
  show ?case by (simp add: CODE_CLOSE_def)
next
  case (Cons c body)
  have nf: "\<not> sublist fence body" using Cons.prems by (rule not_sublist_Cons)
  then have ih: "find_first CODE_CLOSE (body @ CODE_CLOSE @ post) = Some (body, post)"
    by (rule Cons.IH)
  have "\<not> prefix fence (body @ CHR ''\<newline>'' # fence @ post)"
    using nf by (intro not_prefix_fence_sep) simp_all
  then have "\<not> prefix CODE_CLOSE (c # (body @ CODE_CLOSE @ post))"
    by (simp add: close_unfold)
  then show ?case using ih by simp
qed

lemma not_prefix_opener_in_pre:
  assumes "pre \<noteq> []" "\<not> sublist fence pre" "t1 \<noteq> CHR ''`''"
  shows "\<not> prefix (fence @ t1 # x) (pre @ fence @ y)"
proof
  assume p: "prefix (fence @ t1 # x) (pre @ fence @ y)"
  have pf: "prefix fence (pre @ fence @ y)"
    using p by (rule append_prefixD)
  have short: "\<not> length fence \<le> length pre"
  proof
    assume "length fence \<le> length pre"
    then have "prefix fence pre" using pf by (rule prefix_append_long)
    then show False using assms(2) prefix_imp_sublist by blast
  qed
  then have "length pre < 3" by (simp add: fence_def)
  moreover have "length pre \<noteq> 0" using assms(1) by simp
  ultimately have "length pre = 1 \<or> length pre = 2" by arith
  then show False
  proof
    assume "length pre = 1"
    then obtain a where "pre = [a]" by (cases pre) auto
    then show False using p assms(3) by (simp add: fence_unfold)
  next
    assume "length pre = 2"
    then obtain a b where "pre = [a, b]"
      by (cases pre; cases "tl pre") auto
    then show False using p assms(3) by (simp add: fence_unfold)
  qed
qed

lemma findall_skip_free:
  assumes "c \<noteq> CHR ''`''"
  shows "\<not> sublist fence X \<Longrightarrow> findall (fence @ tag) (X @ c # rest) = findall (fence @ tag) rest"
proof (induction X)
  case Nil
  have "\<not> prefix (fence @ tag) (c # rest)" using assms by (simp add: fence_unfold)
  then show ?case using findall_skip by simp
next
  case (Cons x X)
  have nf: "\<not> sublist fence X" using Cons.prems by (rule not_sublist_Cons)
  have "\<not> prefix fence ((x # X) @ c # rest)"
    using assms Cons.prems by (rule not_prefix_fence_sep)
  then have "\<not> prefix (fence @ tag) (x # (X @ c # rest))"
    using append_prefixD [of fence tag] by auto
  then have "findall (fence @ tag) (x # (X @ c # rest)) = findall (fence @ tag) (X @ c # rest)"
    by (rule findall_skip)
  then show ?case using Cons.IH [OF nf] by simp
qed

lemma findall_skip_pre_fence:
  assumes "t0 \<noteq> CHR ''`''" "t1 \<noteq> CHR ''`''" "t1 \<noteq> t0"
  shows "\<not> sublist fence pre \<Longrightarrow>
     findall (fence @ t1 # tag1) (pre @ fence @ t0 # rest) = findall (fence @ t1 # tag1) rest"
proof (induction pre)
  case Nil
  let ?bt = "CHR ''`''"
  have a: "findall (fence @ t1 # tag1) (?bt # ?bt # ?bt # t0 # rest)
      = findall (fence @ t1 # tag1) (?bt # ?bt # t0 # rest)"
    using assms by (intro findall_skip) (simp add: fence_unfold)
  have b: "findall (fence @ t1 # tag1) (?bt # ?bt # t0 # rest)
      = findall (fence @ t1 # tag1) (?bt # t0 # rest)"
    using assms by (intro findall_skip) (simp add: fence_unfold)
  have c: "findall (fence @ t1 # tag1) (?bt # t0 # rest)
      = findall (fence @ t1 # tag1) (t0 # rest)"
    using assms by (intro findall_skip) (simp add: fence_unfold)
  have d: "findall (fence @ t1 # tag1) (t0 # rest) = findall (fence @ t1 # tag1) rest"
    using assms by (intro findall_skip) (simp add: fence_unfold)
  have e: "[] @ fence @ t0 # rest = ?bt # ?bt # ?bt # t0 # rest" by (simp add: fence_unfold)
  show ?case by (simp only: e a b c d)
next
  case (Cons x pre)
  have nf: "\<not> sublist fence pre" using Cons.prems by (rule not_sublist_Cons)
  have "\<not> prefix (fence @ t1 # tag1) ((x # pre) @ fence @ t0 # rest)"
    using Cons.prems assms(2) by (intro not_prefix_opener_in_pre) simp_all
  then have "\<not> prefix (fence @ t1 # tag1) (x # (pre @ fence @ t0 # rest))" by simp
  then have "findall (fence @ t1 # tag1) (x # (pre @ fence @ t0 # rest))
      = findall (fence @ t1 # tag1) (pre @ fence @ t0 # rest)"
    by (rule findall_skip)
  then show ?case using Cons.IH [OF nf] by simp
qed

lemma findall_match:
  assumes "t0 \<noteq> CHR ''`''" "\<not> sublist fence body" "\<not> sublist fence post"
  shows "\<not> sublist fence pre \<Longrightarrow>
     findall (fence @ t0 # tag) (pre @ (fence @ t0 # tag) @ body @ CODE_CLOSE @ post) = [body]"
proof (induction pre)
  case Nil
  let ?s = "(fence @ t0 # tag) @ body @ CODE_CLOSE @ post"
  obtain c cs where s: "?s = c # cs" by (simp add: fence_unfold)
  have p: "prefix (fence @ t0 # tag) (c # cs)" unfolding s [symmetric] by simp
  have d: "drop (length (fence @ t0 # tag)) (c # cs) = body @ CODE_CLOSE @ post"
    unfolding s [symmetric] by simp
  have ff: "find_first CODE_CLOSE (body @ CODE_CLOSE @ post) = Some (body, post)"
    using assms(2) by (rule find_first_close)
  have "\<not> sublist CODE_CLOSE post" using assms(3) sublist_close_fence by blast
  then have e: "findall (fence @ t0 # tag) post = []" by (rule findall_no_close)
  have "findall (fence @ t0 # tag) (c # cs) = [body]"
    by (subst findall.simps) (simp only: p d ff e if_True option.case prod.case)
  then show ?case using s by simp
next
  case (Cons x pre)
  have nf: "\<not> sublist fence pre" using Cons.prems by (rule not_sublist_Cons)
  have "\<not> prefix (fence @ t0 # tag) ((x # pre) @ fence @ (t0 # tag) @ body @ CODE_CLOSE @ post)"
    using Cons.prems assms(1) by (intro not_prefix_opener_in_pre) simp_all
  then have "\<not> prefix (fence @ t0 # tag)
      (x # (pre @ (fence @ t0 # tag) @ body @ CODE_CLOSE @ post))" by simp
  then have "findall (fence @ t0 # tag) (x # (pre @ (fence @ t0 # tag) @ body @ CODE_CLOSE @ post))
      = findall (fence @ t0 # tag) (pre @ (fence @ t0 # tag) @ body @ CODE_CLOSE @ post)"
    by (rule findall_skip)
  then show ?case using Cons.IH [OF nf] by simp
qed


lemma not_sublist_close_fence_post:
  assumes "\<not> sublist fence post"
  shows "\<not> sublist CODE_CLOSE (fence @ post)"
proof -
  have n: "\<not> sublist CODE_CLOSE post" using assms sublist_close_fence by blast
  have "\<not> sublist CODE_CLOSE (CHR ''`'' # CHR ''`'' # CHR ''`'' # post)"
    using n by (simp add: sublist_Cons_right CODE_CLOSE_def)
  then show ?thesis by (simp add: fence_unfold)
qed

lemma str_count_response:
  assumes "t0 \<noteq> CHR ''`''" "CHR ''`'' \<notin> set tag"
    "\<not> sublist fence pre" "\<not> sublist fence body" "\<not> sublist fence post"
  shows "str_count fence (pre @ (fence @ t0 # tag) @ body @ CODE_CLOSE @ post) = 2"
proof -
  have ne: "fence \<noteq> []" by (simp add: fence_def)
  have nl: "CHR ''\<newline>'' \<notin> set fence" by (simp add: fence_def)
  have t0: "t0 \<notin> set fence" using assms(1) by (rule bt_notin_if_neq)
  have shape: "pre @ (fence @ t0 # tag) @ body @ CODE_CLOSE @ post
      = (pre @ fence) @ t0 # ((tag @ body) @ CHR ''\<newline>'' # (fence @ post))"
    by (simp add: close_unfold)
  have mid: "str_count fence (tag @ body) = 0"
    using ne not_sublist_fence_tag [OF assms(2,4)] by (rule str_count_zero)
  have "str_count fence ((pre @ fence) @ t0 # ((tag @ body) @ CHR ''\<newline>'' # (fence @ post)))
      = str_count fence (pre @ fence)
        + str_count fence ((tag @ body) @ CHR ''\<newline>'' # (fence @ post))"
    using ne t0 by (rule str_count_sep)
  also have "str_count fence ((tag @ body) @ CHR ''\<newline>'' # (fence @ post))
      = str_count fence (tag @ body) + str_count fence (fence @ post)"
    using ne nl by (rule str_count_sep)
  finally show ?thesis
    unfolding shape
    using mid str_count_pre_fence [OF assms(3)] str_count_fence_post [OF assms(5)] by simp
qed

lemma findall_mismatch:
  assumes "t0 \<noteq> CHR ''`''" "t1 \<noteq> CHR ''`''" "t1 \<noteq> t0" "CHR ''`'' \<notin> set tag"
    "\<not> sublist fence pre" "\<not> sublist fence body" "\<not> sublist fence post"
  shows "findall (fence @ t1 # tag1) (pre @ (fence @ t0 # tag) @ body @ CODE_CLOSE @ post) = []"
proof -
  have shape: "pre @ (fence @ t0 # tag) @ body @ CODE_CLOSE @ post
      = pre @ fence @ t0 # ((tag @ body) @ CHR ''\<newline>'' # (fence @ post))"
    by (simp add: close_unfold)
  have "findall (fence @ t1 # tag1)
          (pre @ fence @ t0 # ((tag @ body) @ CHR ''\<newline>'' # (fence @ post)))
      = findall (fence @ t1 # tag1) ((tag @ body) @ CHR ''\<newline>'' # (fence @ post))"
    using assms(1,2,3,5) by (rule findall_skip_pre_fence)
  also have "\<dots> = findall (fence @ t1 # tag1) (fence @ post)"
    using not_sublist_fence_tag [OF assms(4,6)] by (intro findall_skip_free) simp_all
  also have "\<dots> = []"
    using not_sublist_close_fence_post [OF assms(7)] by (rule findall_no_close)
  finally show ?thesis unfolding shape .
qed

lemma openers_unfold:
  \<open>CODE_OPENERS = [fence @ CHR ''p'' # ''ython\<newline>'', fence @ CHR '' '' # ''python\<newline>'',
                   fence @ CHR ''\<newline>'' # []]\<close>
  by (simp add: CODE_OPENERS_def fence_def)

lemma first_single_match_block:
  assumes "opener \<in> set CODE_OPENERS"
    "\<not> sublist fence pre" "\<not> sublist fence body" "\<not> sublist fence post"
  shows "first_single_match CODE_OPENERS (pre @ opener @ body @ CODE_CLOSE @ post)
     = Some (strip body)"
proof -
  let ?o1 = \<open>fence @ CHR ''p'' # ''ython\<newline>''\<close>
  let ?o2 = \<open>fence @ CHR '' '' # ''python\<newline>''\<close>
  let ?o3 = \<open>fence @ CHR ''\<newline>'' # []\<close>
  from assms(1) consider "opener = ?o1" | "opener = ?o2" | "opener = ?o3"
    unfolding openers_unfold by auto
  then show ?thesis
  proof cases
    case 1
    have "findall ?o1 (pre @ ?o1 @ body @ CODE_CLOSE @ post) = [body]"
      using assms(2-4) by (intro findall_match) simp_all
    then show ?thesis unfolding openers_unfold 1 by simp
  next
    case 2
    have a: "findall ?o1 (pre @ ?o2 @ body @ CODE_CLOSE @ post) = []"
      using assms(2-4) by (intro findall_mismatch) simp_all
    have b: "findall ?o2 (pre @ ?o2 @ body @ CODE_CLOSE @ post) = [body]"
      using assms(2-4) by (intro findall_match) simp_all
    show ?thesis unfolding openers_unfold 2 using a b by simp
  next
    case 3
    have a: "findall ?o1 (pre @ ?o3 @ body @ CODE_CLOSE @ post) = []"
      using assms(2-4) by (intro findall_mismatch) simp_all
    have b: "findall ?o2 (pre @ ?o3 @ body @ CODE_CLOSE @ post) = []"
      using assms(2-4) by (intro findall_mismatch) simp_all
    have c: "findall ?o3 (pre @ ?o3 @ body @ CODE_CLOSE @ post) = [body]"
      using assms(2-4) by (intro findall_match) simp_all
    show ?thesis unfolding openers_unfold 3 using a b c by simp
  qed
qed

lemma str_count_block:
  assumes "opener \<in> set CODE_OPENERS"
    "\<not> sublist fence pre" "\<not> sublist fence body" "\<not> sublist fence post"
  shows "str_count fence (pre @ opener @ body @ CODE_CLOSE @ post) = 2"
proof -
  let ?o1 = \<open>fence @ CHR ''p'' # ''ython\<newline>''\<close>
  let ?o2 = \<open>fence @ CHR '' '' # ''python\<newline>''\<close>
  let ?o3 = \<open>fence @ CHR ''\<newline>'' # []\<close>
  from assms(1) consider "opener = ?o1" | "opener = ?o2" | "opener = ?o3"
    unfolding openers_unfold by auto
  then show ?thesis
  proof cases
    case 1
    show ?thesis unfolding 1 using assms(2-4) by (intro str_count_response) simp_all
  next
    case 2
    show ?thesis unfolding 2 using assms(2-4) by (intro str_count_response) simp_all
  next
    case 3
    show ?thesis unfolding 3 using assms(2-4) by (intro str_count_response) simp_all
  qed
qed

text \<open>
  Claim C2. A response that consists of any text without a fence, one of the accepted
  opening fences, a block content without a fence, the closing fence on its own line, and
  any text without a fence, has exactly one fenced block: \<open>extract_code\<close> returns the
  block content with leading and trailing whitespace stripped. A response in which the
  number of fence delimiters is not two (no block, two blocks, or more) fails with
  \<open>FailedExtractingCode\<close> carrying that number; and whenever extraction fails, the
  failure carries the number of fence delimiters of the response.
\<close>

theorem extract_code_single_block:
  "(\<forall>pre opener body post.
      response = pre @ opener @ body @ CODE_CLOSE @ post \<and> opener \<in> set CODE_OPENERS \<and>
      \<not> sublist fence pre \<and> \<not> sublist fence body \<and> \<not> sublist fence post
      \<longrightarrow> extract_code response = Inr (strip body)) \<and>
   (str_count fence response \<noteq> 2
      \<longrightarrow> extract_code response = Inl (FailedExtractingCode (str_count fence response))) \<and>
   (\<forall>e. extract_code response = Inl e
      \<longrightarrow> e = FailedExtractingCode (str_count fence response))"
proof (intro conjI allI impI)
  fix pre opener body post
  assume a: "response = pre @ opener @ body @ CODE_CLOSE @ post \<and> opener \<in> set CODE_OPENERS \<and>
      \<not> sublist fence pre \<and> \<not> sublist fence body \<and> \<not> sublist fence post"
  then have r: "response = pre @ opener @ body @ CODE_CLOSE @ post" by simp
  have c: "str_count fence response = 2" unfolding r using a by (intro str_count_block) simp_all
  have m: "first_single_match CODE_OPENERS response = Some (strip body)"
    unfolding r using a by (intro first_single_match_block) simp_all
  show "extract_code response = Inr (strip body)"
    by (simp add: extract_code_def c m)
next
  assume "str_count fence response \<noteq> 2"
  then show "extract_code response = Inl (FailedExtractingCode (str_count fence response))"
    by (simp add: extract_code_def)
next
  fix e
  assume "extract_code response = Inl e"
  then show "e = FailedExtractingCode (str_count fence response)"
    by (auto simp: extract_code_def Let_def split: if_splits option.splits)
qed

theorem extract_code_single_block_witness:
  \<open>extract_code ''Here:\<newline>```python\<newline>  x = 1\<newline>y = 2 \<newline>```\<newline>bye''
     = Inr ''x = 1\<newline>y = 2'' \<and>
   extract_code ''```\<newline>a\<newline>```\<newline>```\<newline>b\<newline>```''
     = Inl (FailedExtractingCode 4)\<close>
proof -
  let ?pre = \<open>''Here:\<newline>''\<close>
  let ?opener = \<open>''```python\<newline>''\<close>
  let ?body = \<open>''  x = 1\<newline>y = 2 ''\<close>
  let ?post = \<open>''\<newline>bye''\<close>
  let ?r1 = \<open>''Here:\<newline>```python\<newline>  x = 1\<newline>y = 2 \<newline>```\<newline>bye''\<close>
  let ?r2 = \<open>''```\<newline>a\<newline>```\<newline>```\<newline>b\<newline>```''\<close>
  have e: "\<not> sublist fence []" by (simp add: fence_def)
  have f1: "\<not> sublist fence ?pre"
    using not_sublist_fence_tag [of ?pre "[]", OF _ e] by simp
  have f2: "\<not> sublist fence ?body"
    using not_sublist_fence_tag [of ?body "[]", OF _ e] by simp
  have f3: "\<not> sublist fence ?post"
    using not_sublist_fence_tag [of ?post "[]", OF _ e] by simp
  have h: "?r1 = ?pre @ ?opener @ ?body @ CODE_CLOSE @ ?post \<and> ?opener \<in> set CODE_OPENERS \<and>
      \<not> sublist fence ?pre \<and> \<not> sublist fence ?body \<and> \<not> sublist fence ?post"
    using f1 f2 f3 by (simp add: CODE_CLOSE_def CODE_OPENERS_def)
  have "extract_code ?r1 = Inr (strip ?body)"
    using extract_code_single_block [of ?r1, THEN conjunct1, rule_format, OF h] .
  moreover have "strip ?body = ''x = 1\<newline>y = 2''"
    by (simp add: strip_def lstrip_def rstrip_def isspace_def)
  ultimately have a: "extract_code ?r1 = Inr ''x = 1\<newline>y = 2''" by simp
  have c: "str_count fence ?r2 = 4" by (simp add: fence_def)
  then have "str_count fence ?r2 \<noteq> 2" by simp
  then have "extract_code ?r2 = Inl (FailedExtractingCode (str_count fence ?r2))"
    using extract_code_single_block [of ?r2, THEN conjunct2, THEN conjunct1] by blast
  then have b: "extract_code ?r2 = Inl (FailedExtractingCode 4)" using c by simp
  show ?thesis using a b by simp
qed

section \<open>Properties of the checker framework\<close>

lemma run_checks_loop_append:
  "runs_through pre self = Some self1 \<Longrightarrow>
   run_checks_loop (pre @ post) self = run_checks_loop post self1"
proof (induction pre arbitrary: self)
  case Nil
  then show ?case by simp
next
  case (Cons check pre)
  from Cons.prems obtain should_stop self' where
    c: "call check self = Inr (should_stop, self')"
    by (cases "call check self") (auto split: prod.splits)
  have nv: "\<not> (should_stop \<and> length (issues self') = length (issues self))"
    and nh: "\<not> (issues self' \<noteq> [] \<and> (stop_after_first_issue self' \<or> should_stop))"
    and r: "runs_through pre self' = Some self1"
    using Cons.prems c by (auto split: if_splits)
  have "run_checks_loop ((check # pre) @ post) self = run_checks_loop (pre @ post) self'"
    using c nv nh by (auto simp: Let_def)
  then show ?case using Cons.IH [OF r] by simp
qed

lemma runs_through_snoc:
  "runs_through pre self = Some self1 \<Longrightarrow>
   runs_through (pre @ [check]) self = runs_through [check] self1"
proof (induction pre arbitrary: self)
  case Nil
  then show ?case by simp
next
  case (Cons c0 pre)
  from Cons.prems obtain should_stop self' where
    c: "call c0 self = Inr (should_stop, self')"
    by (cases "call c0 self") (auto split: prod.splits)
  have nv: "\<not> (should_stop \<and> length (issues self') = length (issues self))"
    and nh: "\<not> (issues self' \<noteq> [] \<and> (stop_after_first_issue self' \<or> should_stop))"
    and r: "runs_through pre self' = Some self1"
    using Cons.prems c by (auto split: if_splits)
  have "runs_through ((c0 # pre) @ [check]) self = runs_through (pre @ [check]) self'"
    using c nv nh by auto
  then show ?case using Cons.IH [OF r] by simp
qed

text \<open>
  Claim C5. Let the loop of \<open>_run_checks\<close> have run the checks \<open>pre\<close> and arrive at
  the check \<open>check\<close> in state \<open>self1\<close>, and let the check return the stop signal
  \<open>should_stop\<close> and the state \<open>self2\<close>. If the check signals stop and the number
  of issues is unchanged, the run fails with the assertion error. Otherwise the loop
  halts after this check, returning \<open>self2\<close> whatever checks follow, exactly when
  there are issues and \<open>stop_after_first_issue\<close> is set or the check requested stop;
  when that condition fails, the loop goes on with the checks that follow.
\<close>

theorem run_checks_stop_contract:
  assumes "assert_if_provided_choice_of_checks_include_all_check_methods cls = Inr ()"
    and "get_checks_to_run cls = pre @ check # post"
    and "runs_through pre self = Some self1"
    and "call check self1 = Inr (should_stop, self2)"
  shows "(should_stop \<and> length (issues self2) = length (issues self1) \<longrightarrow>
            run_checks_inner cls self =
              Inl (AssertionError (''Check '' @ method_name check
                     @ '' returned True, but no issues were created.''))) \<and>
         (\<not> (should_stop \<and> length (issues self2) = length (issues self1)) \<longrightarrow>
            (issues self2 \<noteq> [] \<and> (stop_after_first_issue self2 \<or> should_stop) \<longrightarrow>
               run_checks_inner cls self = Inr self2 \<and>
               runs_through (pre @ [check]) self = None) \<and>
            (\<not> (issues self2 \<noteq> [] \<and> (stop_after_first_issue self2 \<or> should_stop)) \<longrightarrow>
               run_checks_inner cls self = run_checks_loop post self2 \<and>
               runs_through (pre @ [check]) self = Some self2))"
proof -
  have inner: "run_checks_inner cls self = run_checks_loop (check # post) self1"
    using assms(1,2) run_checks_loop_append [OF assms(3), of "check # post"]
    by (simp add: run_checks_inner_def)
  have through: "runs_through (pre @ [check]) self = runs_through [check] self1"
    using assms(3) by (rule runs_through_snoc)
  show ?thesis
    unfolding inner through using assms(4) by (auto simp: Let_def)
qed


theorem run_checks_stop_contract_witness:
  "run_checks_inner
     \<lparr> check_methods = [check_nothing, check_stop_without_issue, check_with_issue],
       CHOICE_OF_CHECKS = None \<rparr> (new_checker False)
     = Inl (AssertionError
         ''Check check_stop_without_issue returned True, but no issues were created.'') \<and>
   run_checks_inner
     \<lparr> check_methods = [check_nothing, check_with_issue, check_stop_without_issue],
       CHOICE_OF_CHECKS = None \<rparr> (new_checker True)
     = Inr ((new_checker True)\<lparr>issues := [example_issue]\<rparr>) \<and>
   run_checks_inner
     \<lparr> check_methods = [check_nothing, check_with_issue],
       CHOICE_OF_CHECKS = None \<rparr> (new_checker False)
     = Inr ((new_checker False)\<lparr>issues := [example_issue]\<rparr>)"
proof -
  let ?c1 = "\<lparr> check_methods = [check_nothing, check_stop_without_issue, check_with_issue],
       CHOICE_OF_CHECKS = None \<rparr>"
  let ?c2 = "\<lparr> check_methods = [check_nothing, check_with_issue, check_stop_without_issue],
       CHOICE_OF_CHECKS = None \<rparr>"
  let ?c3 = "\<lparr> check_methods = [check_nothing, check_with_issue],
       CHOICE_OF_CHECKS = None \<rparr>"
  have a1: "assert_if_provided_choice_of_checks_include_all_check_methods ?c1 = Inr ()"
    and a2: "assert_if_provided_choice_of_checks_include_all_check_methods ?c2 = Inr ()"
    and a3: "assert_if_provided_choice_of_checks_include_all_check_methods ?c3 = Inr ()"
    by (simp_all add: assert_if_provided_choice_of_checks_include_all_check_methods_def)
  have g1: "get_checks_to_run ?c1 = [check_nothing] @ check_stop_without_issue # [check_with_issue]"
    and g2: "get_checks_to_run ?c2 = [check_nothing] @ check_with_issue # [check_stop_without_issue]"
    and g3: "get_checks_to_run ?c3 = [check_nothing] @ check_with_issue # []"
    by (simp_all add: get_checks_to_run_def automatically_get_all_check_methods_def)
  have r: "runs_through [check_nothing] (new_checker b) = Some (new_checker b)" for b
    by (simp add: check_nothing_def new_checker_def)
  have s1: "call check_stop_without_issue (new_checker False) = Inr (True, new_checker False)"
    by (simp add: check_stop_without_issue_def)
  have s2: "call check_with_issue (new_checker b)
      = Inr (False, (new_checker b)\<lparr>issues := [example_issue]\<rparr>)" for b
    by (simp add: check_with_issue_def new_checker_def)
  have one: "run_checks_inner ?c1 (new_checker False)
     = Inl (AssertionError
         ''Check check_stop_without_issue returned True, but no issues were created.'')"
    using run_checks_stop_contract [OF a1 g1 r [of False] s1]
    by (simp add: check_stop_without_issue_def)
  have two: "run_checks_inner ?c2 (new_checker True)
     = Inr ((new_checker True)\<lparr>issues := [example_issue]\<rparr>)"
    using run_checks_stop_contract [OF a2 g2 r [of True] s2 [of True]]
    by (simp add: new_checker_def)
  have three: "run_checks_inner ?c3 (new_checker False)
     = Inr ((new_checker False)\<lparr>issues := [example_issue]\<rparr>)"
    using run_checks_stop_contract [OF a3 g3 r [of False] s2 [of False]]
    by (simp add: new_checker_def)
  show ?thesis using one two three by simp
qed

section \<open>Properties of the checkers\<close>

text \<open>
  Claim C6 fails on the code for the argument \<open>xerr\<close>: the property \<open>xerr\<close> reads
  the keyword argument \<open>yerr\<close>, so a column named by \<open>xerr\<close> that is not in the data
  frame is not reported; the check leaves the checker without any issue, and so does the
  whole run of the figure syntax checker.
\<close>

theorem xerr_missing_column_is_not_reported:
  "call check_that_specified_columns_exist
     (FigureSyntaxDfChecker table_3x3 ''df_fig''
        [(''kind'', KStr ''bar''), (''y'', KStr ''a''), (''xerr'', KStr ''zzz'')])
     = Inr (False, FigureSyntaxDfChecker table_3x3 ''df_fig''
        [(''kind'', KStr ''bar''), (''y'', KStr ''a''), (''xerr'', KStr ''zzz'')]) \<and>
   xerr_prop (FigureSyntaxDfChecker table_3x3 ''df_fig''
        [(''kind'', KStr ''bar''), (''y'', KStr ''a''), (''xerr'', KStr ''zzz'')]) = KNone"
  by (simp add: check_that_specified_columns_exist_def args_with_names_def
      get_xy_err_ci_p_value_as_list_def base_arg_names_def x_prop_def y_prop_def xerr_prop_def
      yerr_prop_def x_ci_prop_def y_ci_prop_def x_p_value_prop_def y_p_value_prop_def
      kwargs_get_def FigureSyntaxDfChecker_def SyntaxDfChecker_def table_3x3_def)

lemma range_labels_eq: "list_all2 label_eq_int (map (\<lambda>i. LInt (int i)) xs) (map int xs)"
  by (induction xs) simp_all

lemma str_labels_not_range:
  "ss \<noteq> [] \<Longrightarrow> \<not> list_all2 label_eq_int (map LStr ss) (map int [0..<length (map LStr ss)])"
proof -
  assume "ss \<noteq> []"
  then obtain s ss' where ss: "ss = s # ss'" by (cases ss) auto
  have "[0..<length (map LStr ss)] = 0 # [1..<Suc (length ss')]"
    unfolding ss by (simp add: upt_rec)
  then show ?thesis unfolding ss by simp
qed

lemma append_issue_appends:
  "\<exists>i. append_issue (Some c) itm iss ins cp fa self = self\<lparr>issues := issues self @ [i]\<rparr> \<and>
       category i = Some c \<and> issue i = iss \<and> instructions i = ins \<and> forgive_after i = fa"
  unfolding append_issue_def
  by (rule exI [of _ "\<lparr> category = Some c,
        item = (case itm of None \<Rightarrow> Some (filename_df self) | Some i \<Rightarrow> Some i),
        issue = iss, instructions = ins,
        code_problem = (case cp of None \<Rightarrow> DEFAULT_CODE_PROBLEM self | Some p \<Rightarrow> Some p),
        forgive_after = fa \<rparr>"]) simp

lemma index_prop_table_3x3:
  "index_prop (TableDfContentChecker d ''df_table'' [])"
  by (simp add: index_prop_def is_figure_def TableDfContentChecker_def kwargs_get_def)

text \<open>
  Claim C9, as stated, fails: the source compares the dtype of the index with \<open>int\<close>,
  which holds for the default integer dtype only. An index with the entries 0 to 2 and the
  integer dtype \<open>int32\<close>, in use as the row labels of a table, is not flagged.
\<close>

theorem index_range_of_int32_is_not_flagged_counterexample:
  "is_integer_dtype Int32 \<and>
   index_prop (TableDfContentChecker
     (table_3x3\<lparr>df_index := Index Int32 [LInt 0, LInt 1, LInt 2]\<rparr>) ''df_table'' []) \<and>
   call check_df_index_is_a_range
     (TableDfContentChecker
        (table_3x3\<lparr>df_index := Index Int32 [LInt 0, LInt 1, LInt 2]\<rparr>) ''df_table'' [])
     = Inr (False, TableDfContentChecker
        (table_3x3\<lparr>df_index := Index Int32 [LInt 0, LInt 1, LInt 2]\<rparr>) ''df_table'' [])"
  using index_prop_table_3x3
  by (simp add: check_df_index_is_a_range_def Let_def TableDfContentChecker_def
      dtype_eq_int_def)

text \<open>
  Claim C9, amended. When the index of the checker is in use,
  \<open>check_df_index_is_a_range\<close> appends one issue, of the category of index and column
  problems and naming the last number of the range, for an index whose entries are the
  integers 0 to n-1 and whose dtype is the default integer dtype \<open>int64\<close>, the one that
  equals \<open>int\<close>. It leaves the checker unchanged for every other index: for a
  single-level index whose dtype does not equal \<open>int\<close> or whose entries are not equal
  to 0 to n-1, in particular for the entries 0 to n-1 with any other dtype, integer
  dtypes such as \<open>int32\<close> included, and for an index of strings (such as '0' to
  'n-1'); and for a multi-index.
\<close>

theorem index_range_is_flagged_for_default_int_dtype_only:
  assumes "index_prop self"
  shows "(\<forall>n. df_index (df self) = Index Int64 (map (\<lambda>i. LInt (int i)) [0..<n]) \<longrightarrow>
            (\<exists>i. call check_df_index_is_a_range self
                   = Inr (False, self\<lparr>issues := issues self @ [i]\<rparr>) \<and>
                 category i = Some INDEX_COLUMN_CATEGORY \<and>
                 IntRepr (int n - 1) \<in> set (issue i))) \<and>
         (\<forall>dt labels. df_index (df self) = Index dt labels \<and>
              \<not> (dt = Int64 \<and> list_all2 label_eq_int labels (map int [0..<length labels]))
            \<longrightarrow> call check_df_index_is_a_range self = Inr (False, self)) \<and>
         (\<forall>dt n. df_index (df self) = Index dt (map (\<lambda>i. LInt (int i)) [0..<n]) \<and>
              dt \<noteq> Int64
            \<longrightarrow> call check_df_index_is_a_range self = Inr (False, self)) \<and>
         (\<forall>dt ss. df_index (df self) = Index dt (map LStr ss) \<and> (ss \<noteq> [] \<or> dt = ObjectDtype)
            \<longrightarrow> call check_df_index_is_a_range self = Inr (False, self)) \<and>
         (\<forall>tuples. df_index (df self) = MultiIndex tuples
            \<longrightarrow> call check_df_index_is_a_range self = Inr (False, self))"
proof (intro conjI allI impI)
  fix n
  assume a: "df_index (df self) = Index Int64 (map (\<lambda>i. LInt (int i)) [0..<n])"
  have r: "index_is_range (df_index (df self)) (fst (shape (df self)))"
    unfolding a shape_def using range_labels_eq [of "[0..<n]"]
    by (simp add: a dtype_eq_int_def)
  have n: "fst (shape (df self)) = n" by (simp add: shape_def a)
  obtain iss ins where c: "call check_df_index_is_a_range self
      = Inr (False, append_issue (Some INDEX_COLUMN_CATEGORY) None iss ins None None self)"
    and m: "IntRepr (int n - 1) \<in> set iss"
    using assms r n
    by (cases "is_figure self") (simp_all add: check_df_index_is_a_range_def Let_def)
  obtain i where "append_issue (Some INDEX_COLUMN_CATEGORY) None iss ins None None self
      = self\<lparr>issues := issues self @ [i]\<rparr>"
    "category i = Some INDEX_COLUMN_CATEGORY" "issue i = iss"
    using append_issue_appends by blast
  then show "\<exists>i. call check_df_index_is_a_range self
                   = Inr (False, self\<lparr>issues := issues self @ [i]\<rparr>) \<and>
                 category i = Some INDEX_COLUMN_CATEGORY \<and>
                 IntRepr (int n - 1) \<in> set (issue i)"
    using c m by auto
next
  fix dt labels
  assume a: "df_index (df self) = Index dt labels \<and>
              \<not> (dt = Int64 \<and> list_all2 label_eq_int labels (map int [0..<length labels]))"
  then have "\<not> index_is_range (df_index (df self)) (fst (shape (df self)))"
    by (auto simp: shape_def dtype_eq_int_def)
  then show "call check_df_index_is_a_range self = Inr (False, self)"
    by (simp add: check_df_index_is_a_range_def Let_def)
next
  fix dt n
  assume a: "df_index (df self) = Index dt (map (\<lambda>i. LInt (int i)) [0..<n]) \<and> dt \<noteq> Int64"
  then have "\<not> index_is_range (df_index (df self)) (fst (shape (df self)))"
    by (simp add: shape_def dtype_eq_int_def)
  then show "call check_df_index_is_a_range self = Inr (False, self)"
    by (simp add: check_df_index_is_a_range_def Let_def)
next
  fix dt ss
  assume a: "df_index (df self) = Index dt (map LStr ss) \<and> (ss \<noteq> [] \<or> dt = ObjectDtype)"
  have "\<not> index_is_range (df_index (df self)) (fst (shape (df self)))"
  proof (cases "ss = []")
    case True
    then show ?thesis using a by (simp add: shape_def dtype_eq_int_def)
  next
    case False
    then show ?thesis using a str_labels_not_range [OF False] by (simp add: shape_def)
  qed
  then show "call check_df_index_is_a_range self = Inr (False, self)"
    by (simp add: check_df_index_is_a_range_def Let_def)
next
  fix tuples
  assume "df_index (df self) = MultiIndex tuples"
  then show "call check_df_index_is_a_range self = Inr (False, self)"
    by (simp add: check_df_index_is_a_range_def Let_def)
qed

theorem index_range_is_flagged_for_default_int_dtype_only_witness:
  "(\<exists>i. call check_df_index_is_a_range (TableDfContentChecker table_3x3 ''df_table'' [])
        = Inr (False, (TableDfContentChecker table_3x3 ''df_table'' [])\<lparr>issues := [i]\<rparr>) \<and>
        category i = Some INDEX_COLUMN_CATEGORY) \<and>
   call check_df_index_is_a_range
     (TableDfContentChecker
        (table_3x3\<lparr>df_index := Index ObjectDtype (map LStr [''0'', ''1'', ''2''])\<rparr>)
        ''df_table'' [])
     = Inr (False, TableDfContentChecker
        (table_3x3\<lparr>df_index := Index ObjectDtype (map LStr [''0'', ''1'', ''2''])\<rparr>)
        ''df_table'' []) \<and>
   call check_df_index_is_a_range
     (TableDfContentChecker
        (table_3x3\<lparr>df_index := Index UInt8 (map (\<lambda>i. LInt (int i)) [0..<3])\<rparr>)
        ''df_table'' [])
     = Inr (False, TableDfContentChecker
        (table_3x3\<lparr>df_index := Index UInt8 (map (\<lambda>i. LInt (int i)) [0..<3])\<rparr>)
        ''df_table'' []) \<and>
   call check_df_index_is_a_range
     (TableDfContentChecker
        (table_3x3\<lparr>df_index := Index Int64 [LInt 1, LInt 2, LInt 3]\<rparr>)
        ''df_table'' [])
     = Inr (False, TableDfContentChecker
        (table_3x3\<lparr>df_index := Index Int64 [LInt 1, LInt 2, LInt 3]\<rparr>)
        ''df_table'' []) \<and>
   call check_df_index_is_a_range
     (TableDfContentChecker
        (table_3x3\<lparr>df_index := MultiIndex [[LStr ''a'', LInt 0], [LStr ''a'', LInt 1],
                                            [LStr ''b'', LInt 0]]\<rparr>)
        ''df_table'' [])
     = Inr (False, TableDfContentChecker
        (table_3x3\<lparr>df_index := MultiIndex [[LStr ''a'', LInt 0], [LStr ''a'', LInt 1],
                                            [LStr ''b'', LInt 0]]\<rparr>)
        ''df_table'' [])"
proof -
  let ?c1 = "TableDfContentChecker table_3x3 ''df_table'' []"
  let ?c2 = "TableDfContentChecker
        (table_3x3\<lparr>df_index := Index ObjectDtype (map LStr [''0'', ''1'', ''2''])\<rparr>)
        ''df_table'' []"
  let ?c3 = "TableDfContentChecker
        (table_3x3\<lparr>df_index := MultiIndex [[LStr ''a'', LInt 0], [LStr ''a'', LInt 1],
                                            [LStr ''b'', LInt 0]]\<rparr>)
        ''df_table'' []"
  let ?c4 = "TableDfContentChecker
        (table_3x3\<lparr>df_index := Index UInt8 (map (\<lambda>i. LInt (int i)) [0..<3])\<rparr>)
        ''df_table'' []"
  let ?c5 = "TableDfContentChecker
        (table_3x3\<lparr>df_index := Index Int64 [LInt 1, LInt 2, LInt 3]\<rparr>)
        ''df_table'' []"
  have r: "[0..<3] = [0, 1, 2]" by (simp add: upt_rec)
  have d1: "df_index (df ?c1) = Index Int64 (map (\<lambda>i. LInt (int i)) [0..<3])"
    unfolding r by (simp add: TableDfContentChecker_def table_3x3_def)
  have d2: "df_index (df ?c2) = Index ObjectDtype (map LStr [''0'', ''1'', ''2'']) \<and>
      ([''0'', ''1'', ''2''] \<noteq> [] \<or> ObjectDtype = ObjectDtype)"
    by (simp add: TableDfContentChecker_def)
  have d3: "df_index (df ?c3) = MultiIndex [[LStr ''a'', LInt 0], [LStr ''a'', LInt 1],
                                            [LStr ''b'', LInt 0]]"
    by (simp add: TableDfContentChecker_def)
  have d4: "df_index (df ?c4) = Index UInt8 (map (\<lambda>i. LInt (int i)) [0..<3]) \<and> UInt8 \<noteq> Int64"
    by (simp add: TableDfContentChecker_def)
  have d5: "df_index (df ?c5) = Index Int64 [LInt 1, LInt 2, LInt 3] \<and>
      \<not> (Int64 = Int64 \<and> list_all2 label_eq_int [LInt 1, LInt 2, LInt 3]
            (map int [0..<length [LInt 1, LInt 2, LInt 3]]))"
    by (simp add: TableDfContentChecker_def upt_rec)
  note t1 = index_range_is_flagged_for_default_int_dtype_only [OF index_prop_table_3x3, of table_3x3]
  note t2 = index_range_is_flagged_for_default_int_dtype_only [OF index_prop_table_3x3,
      of "table_3x3\<lparr>df_index := Index ObjectDtype (map LStr [''0'', ''1'', ''2''])\<rparr>"]
  note t3 = index_range_is_flagged_for_default_int_dtype_only [OF index_prop_table_3x3,
      of "table_3x3\<lparr>df_index := MultiIndex [[LStr ''a'', LInt 0], [LStr ''a'', LInt 1],
                                            [LStr ''b'', LInt 0]]\<rparr>"]
  note t4 = index_range_is_flagged_for_default_int_dtype_only [OF index_prop_table_3x3,
      of "table_3x3\<lparr>df_index := Index UInt8 (map (\<lambda>i. LInt (int i)) [0..<3])\<rparr>"]
  note t5 = index_range_is_flagged_for_default_int_dtype_only [OF index_prop_table_3x3,
      of "table_3x3\<lparr>df_index := Index Int64 [LInt 1, LInt 2, LInt 3]\<rparr>"]
  from t1 [THEN conjunct1, rule_format, OF d1]
  obtain i where i: "call check_df_index_is_a_range ?c1
      = Inr (False, ?c1\<lparr>issues := issues ?c1 @ [i]\<rparr>)"
    "category i = Some INDEX_COLUMN_CATEGORY" by blast
  have "issues ?c1 = []" by (simp add: TableDfContentChecker_def)
  then have a: "\<exists>i. call check_df_index_is_a_range ?c1 = Inr (False, ?c1\<lparr>issues := [i]\<rparr>) \<and>
        category i = Some INDEX_COLUMN_CATEGORY"
    using i by auto
  have b: "call check_df_index_is_a_range ?c2 = Inr (False, ?c2)"
    using t2 [THEN conjunct2, THEN conjunct2, THEN conjunct2, THEN conjunct1, rule_format,
        OF d2] .
  have c: "call check_df_index_is_a_range ?c3 = Inr (False, ?c3)"
    using t3 [THEN conjunct2, THEN conjunct2, THEN conjunct2, THEN conjunct2, rule_format,
        OF d3] .
  have d: "call check_df_index_is_a_range ?c4 = Inr (False, ?c4)"
    using t4 [THEN conjunct2, THEN conjunct2, THEN conjunct1, rule_format, OF d4] .
  have e: "call check_df_index_is_a_range ?c5 = Inr (False, ?c5)"
    using t5 [THEN conjunct2, THEN conjunct1, rule_format, OF d5] .
  show ?thesis using a b c d e by blast
qed

section \<open>Properties of the chain of checkers of a table\<close>

lemma method_names [simp]:
  "method_name check_filename = ''check_filename''"
  "method_name check_no_label = ''check_no_label''"
  "method_name check_that_index_is_true = ''check_that_index_is_true''"
  "method_name check_column_arg_is_not_used = ''check_column_arg_is_not_used''"
  "method_name check_df_for_nan_values = ''check_df_for_nan_values''"
  "method_name check_df_for_repeated_values = ''check_df_for_repeated_values''"
  "method_name check_df_for_repeated_values_in_prior_dfs
     = ''check_df_for_repeated_values_in_prior_dfs''"
  "method_name (check_df_headers_type a b) = ''check_df_headers_type''"
  "method_name check_df_index_is_a_range = ''check_df_index_is_a_range''"
  "method_name check_df_is_a_result_of_describe = ''check_df_is_a_result_of_describe''"
  "method_name (check_df_size g) = ''check_df_size''"
  "method_name check_df_value_types = ''check_df_value_types''"
  by (simp_all add: check_filename_def check_no_label_def check_that_index_is_true_def
      check_column_arg_is_not_used_def check_df_for_nan_values_def
      check_df_for_repeated_values_def check_df_for_repeated_values_in_prior_dfs_def
      check_df_headers_type_def check_df_index_is_a_range_def
      check_df_is_a_result_of_describe_def check_df_size_def check_df_value_types_def)






















end
